theory Spec2Isabelle
  imports Main "HOL-Library.Word"
begin

section \<open>The chunk registry of the master (master/chunk_manager.go)\<close>

text \<open>
  Go's \<open>uint64\<close> and \<open>int64\<close> are both 64-bit words: \<open>+\<close> and \<open>*\<close> wrap, the
  conversion \<open>int64(x)\<close> keeps the bits, \<open><\<close> on words is the unsigned order and
  \<open><s\<close> the signed one.  A Go map is a partial function, a slice a list.
\<close>

type_synonym uint64 = "64 word"
type_synonym int64 = "64 word"

record Chunk =
  ChunkHandle :: uint64

record ChunkInfo =
  Handle :: uint64
  Locations :: "string list"

record PathIndex =
  Path :: string
  Index :: uint64

record ChunkManager =
  chunkHandle :: uint64
  chunks :: "string \<rightharpoonup> (uint64 \<rightharpoonup> Chunk)"
  handles :: "uint64 \<rightharpoonup> PathIndex"
  locations :: "uint64 \<rightharpoonup> ChunkInfo"
  chunkServers :: "string list"

text \<open>The values built by \<open>errors.New\<close> and returned to the caller.\<close>

datatype error =
    FileNotFound
  | ChunkIndexNotFound
  | LocationsNotAvailable
  | ChunkIndexAlreadyExists
  | ChunkHandleNotFound
  | NamespaceError

text \<open>
  Run-time panics and \<open>log.Fatal\<close>: the call does not return and the process ends
  (net/rpc does not recover a panic of a handler), so no state comes with them.
\<close>

datatype abort =
    IndexOutOfRange
  | NilMapAssignment
  | NilDereference
  | EncodeError
  | WriteError
  | ReadError
  | DecodeError

definition NewChunkManager :: "string list \<Rightarrow> ChunkManager" where
  "NewChunkManager servers =
     \<lparr>chunkHandle = 0, chunks = Map.empty, handles = Map.empty,
      locations = Map.empty, chunkServers = servers\<rparr>"

text \<open>
  \<open>rand.Perm(n)\<close> is a library call: its result is an argument \<open>perm\<close> of the
  model, and \<open>Perm_ok n perm\<close> is the library's contract (a permutation of
  \<open>[0, n)\<close>).
\<close>

definition Perm_ok :: "nat \<Rightarrow> nat list \<Rightarrow> bool" where
  "Perm_ok n perm \<longleftrightarrow> length perm = n \<and> distinct perm \<and> list_all (\<lambda>k. k < n) perm"

text \<open>
  The loop of \<open>random\<close>: \<open>ret[i] = array[perm[i]]\<close> for \<open>i < num\<close>.  Both index
  reads panic out of range.
\<close>

function random_loop ::
  "string list \<Rightarrow> nat list \<Rightarrow> nat \<Rightarrow> nat \<Rightarrow> string list \<Rightarrow> abort + string list" where
  "random_loop array perm num i ret =
     (if i < num then
        (if i < length perm then
           (if perm ! i < length array
            then random_loop array perm num (Suc i) (ret[i := array ! (perm ! i)])
            else Inl IndexOutOfRange)
         else Inl IndexOutOfRange)
      else Inr ret)"
  by pat_completeness auto
termination
  by (relation "measure (\<lambda>(array, perm, num, i, ret). num - i)") auto

declare random_loop.simps [simp del]

definition random_strs :: "string list \<Rightarrow> nat \<Rightarrow> nat list \<Rightarrow> abort + string list" where
  "random_strs array num perm = random_loop array perm num 0 (replicate num [])"

text \<open>\<open>insert\<close>: the range loop returns the array at the first equal element.\<close>

fun insert_loop :: "string list \<Rightarrow> string list \<Rightarrow> string \<Rightarrow> string list" where
  "insert_loop array [] elem = array @ [elem]"
| "insert_loop array (s # rest) elem =
     (if s = elem then array else insert_loop array rest elem)"

definition insert_str :: "string list \<Rightarrow> string \<Rightarrow> string list" where
  "insert_str array elem = insert_loop array array elem"

definition getChunkInfo :: "ChunkManager \<Rightarrow> string \<Rightarrow> uint64 \<Rightarrow> error + ChunkInfo" where
  "getChunkInfo m path chunkIndex =
     (case chunks m path of
        None \<Rightarrow> Inl FileNotFound
      | Some val \<Rightarrow>
          (case val chunkIndex of
             None \<Rightarrow> Inl ChunkIndexNotFound
           | Some chunk \<Rightarrow>
               (case locations m (ChunkHandle chunk) of
                  None \<Rightarrow> Inl LocationsNotAvailable
                | Some chunkInfo \<Rightarrow> Inr chunkInfo)))"

definition FindLocations :: "ChunkManager \<Rightarrow> string \<Rightarrow> uint64 \<Rightarrow> error + ChunkInfo" where
  "FindLocations m path chunkIndex = getChunkInfo m path chunkIndex"

text \<open>
  \<open>addChunk\<close> returns the reply and the registry it leaves; \<open>Inl\<close> is a panic.
  A write into \<open>m.chunks[path]\<close> would panic on a nil map; the map was made just
  before, so that branch is never taken.
\<close>

definition addChunk ::
  "ChunkManager \<Rightarrow> string \<Rightarrow> uint64 \<Rightarrow> nat list
     \<Rightarrow> abort + ((error + ChunkInfo) \<times> ChunkManager)" where
  "addChunk m path chunkIndex perm =
     (let m1 = (case chunks m path of
                  None \<Rightarrow> m\<lparr>chunks := (chunks m)(path \<mapsto> Map.empty)\<rparr>
                | Some _ \<Rightarrow> m)
      in case chunks m1 path of
           None \<Rightarrow> Inl NilMapAssignment
         | Some cm \<Rightarrow>
             (case cm chunkIndex of
                Some _ \<Rightarrow> Inr (Inl ChunkIndexAlreadyExists, m1)
              | None \<Rightarrow>
                  (let handle = chunkHandle m1;
                       m2 = m1\<lparr>chunkHandle := chunkHandle m1 + 1\<rparr>;
                       m3 = m2\<lparr>chunks :=
                              (chunks m2)(path \<mapsto> cm(chunkIndex \<mapsto> \<lparr>ChunkHandle = handle\<rparr>))\<rparr>
                   in case random_strs (chunkServers m3) 3 perm of
                        Inl a \<Rightarrow> Inl a
                      | Inr locs \<Rightarrow>
                          (let info = \<lparr>Handle = handle, Locations = locs\<rparr>;
                               m4 = m3\<lparr>locations := (locations m3)(handle \<mapsto> info)\<rparr>;
                               m5 = m4\<lparr>handles :=
                                      (handles m4)(handle \<mapsto> \<lparr>Path = path, Index = chunkIndex\<rparr>)\<rparr>
                           in Inr (Inr info, m5)))))"

definition AddChunk ::
  "ChunkManager \<Rightarrow> string \<Rightarrow> uint64 \<Rightarrow> nat list
     \<Rightarrow> abort + ((error + ChunkInfo) \<times> ChunkManager)" where
  "AddChunk m path chunkIndex perm = addChunk m path chunkIndex perm"

definition GetPathIndexFromHandle :: "ChunkManager \<Rightarrow> uint64 \<Rightarrow> error + PathIndex" where
  "GetPathIndexFromHandle m handle =
     (case handles m handle of
        None \<Rightarrow> Inl ChunkHandleNotFound
      | Some pathIndex \<Rightarrow> Inr pathIndex)"

definition SetChunkLocation ::
  "ChunkManager \<Rightarrow> uint64 \<Rightarrow> string \<Rightarrow> error option \<times> ChunkManager" where
  "SetChunkLocation m handle address =
     (let info = (case locations m handle of
                    None \<Rightarrow> \<lparr>Handle = handle, Locations = []\<rparr>
                  | Some i \<Rightarrow> i)
      in (None,
          m\<lparr>locations :=
              (locations m)(handle \<mapsto> info\<lparr>Locations := insert_str (Locations info) address\<rparr>)\<rparr>))"

section \<open>The snapshot: Store and Load\<close>

text \<open>
  \<open>persistentData\<close> holds the counter and pointers to the two durable maps; a nil
  pointer is \<open>None\<close>.  (Its fields are \<open>Handle\<close>, \<open>Chunks\<close>, \<open>Handles\<close> in the source;
  \<open>Handle\<close> is taken by \<open>ChunkInfo\<close>.)
\<close>

record persistentData =
  Handle_pd :: uint64
  Chunks_pd :: "(string \<rightharpoonup> (uint64 \<rightharpoonup> Chunk)) option"
  Handles_pd :: "(uint64 \<rightharpoonup> PathIndex) option"

text \<open>
  The library calls of \<open>Store\<close> and \<open>Load\<close> are parameters: the gob encoder and
  decoder over a type \<open>'b\<close> of file contents, and the set of paths on which
  \<open>ioutil.WriteFile\<close> succeeds.  The file system is a map from paths to
  contents; reading a path that holds nothing is the read error.
\<close>

record 'b disk_env =
  gob_Encode :: "persistentData \<Rightarrow> 'b option"
  gob_Decode :: "'b \<Rightarrow> persistentData option"
  writable :: "string set"

definition Store ::
  "'b disk_env \<Rightarrow> ChunkManager \<Rightarrow> string \<Rightarrow> (string \<rightharpoonup> 'b) \<Rightarrow> abort + (string \<rightharpoonup> 'b)" where
  "Store env m path fs =
     (case gob_Encode env \<lparr>Handle_pd = chunkHandle m, Chunks_pd = Some (chunks m),
                            Handles_pd = Some (handles m)\<rparr> of
        None \<Rightarrow> Inl EncodeError
      | Some data \<Rightarrow> if path \<in> writable env then Inr (fs(path \<mapsto> data)) else Inl WriteError)"

definition Load ::
  "'b disk_env \<Rightarrow> ChunkManager \<Rightarrow> string \<Rightarrow> (string \<rightharpoonup> 'b) \<Rightarrow> abort + ChunkManager" where
  "Load env m path fs =
     (case fs path of
        None \<Rightarrow> Inl ReadError
      | Some b \<Rightarrow>
          (case gob_Decode env b of
             None \<Rightarrow> Inl DecodeError
           | Some data \<Rightarrow>
               (case Chunks_pd data of
                  None \<Rightarrow> Inl NilDereference
                | Some c \<Rightarrow>
                    (case Handles_pd data of
                       None \<Rightarrow> Inl NilDereference
                     | Some h \<Rightarrow>
                         Inr (m\<lparr>chunkHandle := Handle_pd data, chunks := c, handles := h\<rparr>)))))"

text \<open>What the gob package promises: decoding an encoding gives the value back.\<close>

definition gob_faithful :: "'b disk_env \<Rightarrow> bool" where
  "gob_faithful env \<longleftrightarrow> (\<forall>d b. gob_Encode env d = Some b \<longrightarrow> gob_Decode env b = Some d)"

section \<open>Sequences of registry operations\<close>

text \<open>
  A call of one exported method of the registry, with the permutation \<open>rand.Perm\<close>
  returns inside it; its reply; and the registry together with the file system as
  the state the calls run on.  A run stops at the first panic or fatal error.
\<close>

datatype op =
    AddChunk_op string uint64 "nat list"
  | FindLocations_op string uint64
  | GetPathIndexFromHandle_op uint64
  | SetChunkLocation_op uint64 string
  | Store_op string
  | Load_op string

datatype reply =
    Info_reply "error + ChunkInfo"
  | PathIndex_reply "error + PathIndex"
  | Error_reply "error option"
  | No_reply

fun step ::
  "'b disk_env \<Rightarrow> op \<Rightarrow> ChunkManager \<times> (string \<rightharpoonup> 'b)
     \<Rightarrow> abort + (reply \<times> ChunkManager \<times> (string \<rightharpoonup> 'b))" where
  "step env (AddChunk_op path i perm) (m, fs) =
     (case AddChunk m path i perm of
        Inl a \<Rightarrow> Inl a
      | Inr (r, m') \<Rightarrow> Inr (Info_reply r, m', fs))"
| "step env (FindLocations_op path i) (m, fs) = Inr (Info_reply (FindLocations m path i), m, fs)"
| "step env (GetPathIndexFromHandle_op h) (m, fs) =
     Inr (PathIndex_reply (GetPathIndexFromHandle m h), m, fs)"
| "step env (SetChunkLocation_op h a) (m, fs) =
     (case SetChunkLocation m h a of (e, m') \<Rightarrow> Inr (Error_reply e, m', fs))"
| "step env (Store_op path) (m, fs) =
     (case Store env m path fs of Inl a \<Rightarrow> Inl a | Inr fs' \<Rightarrow> Inr (No_reply, m, fs'))"
| "step env (Load_op path) (m, fs) =
     (case Load env m path fs of Inl a \<Rightarrow> Inl a | Inr m' \<Rightarrow> Inr (No_reply, m', fs))"

fun run ::
  "'b disk_env \<Rightarrow> op list \<Rightarrow> ChunkManager \<times> (string \<rightharpoonup> 'b)
     \<Rightarrow> abort + (reply list \<times> ChunkManager \<times> (string \<rightharpoonup> 'b))" where
  "run env [] s = Inr ([], s)"
| "run env (x # xs) s =
     (case step env x s of
        Inl a \<Rightarrow> Inl a
      | Inr (r, s') \<Rightarrow>
          (case run env xs s' of
             Inl a \<Rightarrow> Inl a
           | Inr (rs, s'') \<Rightarrow> Inr (r # rs, s'')))"

fun is_Load :: "op \<Rightarrow> bool" where
  "is_Load (Load_op path) = True"
| "is_Load _ = False"

text \<open>
  The allocations of a run: handle and (path, index) of every \<open>AddChunk\<close> that
  returned without error, in the order of the calls.
\<close>

fun allocations :: "op list \<Rightarrow> reply list \<Rightarrow> (uint64 \<times> PathIndex) list" where
  "allocations (AddChunk_op path i perm # xs) (Info_reply (Inr info) # rs) =
     (Handle info, \<lparr>Path = path, Index = i\<rparr>) # allocations xs rs"
| "allocations (x # xs) (r # rs) = allocations xs rs"
| "allocations _ _ = []"

text \<open>Every \<open>AddChunk\<close> of the list carries a permutation of the server positions.\<close>

fun perm_of_op_ok :: "nat \<Rightarrow> op \<Rightarrow> bool" where
  "perm_of_op_ok n (AddChunk_op path i perm) = Perm_ok n perm"
| "perm_of_op_ok n _ = True"

section \<open>The master's handlers (Heartbeat, ReportChunk)\<close>

type_synonym time = int

text \<open>
  Modelled from the spec: the lease table of the Lease Authority and
  \<open>ExtendLease\<close>.  The source calls \<open>ms.chunkManager.ExtendLease(cs, chunks)\<close>, which
  is not in the files at hand.  A lease has a handle, a primary, the replica list
  and an expiration; an extension sets the expiration to now plus the lease
  duration, for each handle of the batch whose primary is the caller, and does
  nothing for the others.
\<close>

record LeaseInfo =
  Lease_handle :: uint64
  Primary :: string
  Replicas :: "string list"
  Expiration :: time

definition extendOne ::
  "time \<Rightarrow> time \<Rightarrow> string \<Rightarrow> (uint64 \<rightharpoonup> LeaseInfo) \<Rightarrow> uint64 \<Rightarrow> (uint64 \<rightharpoonup> LeaseInfo)" where
  "extendOne now duration address ls h =
     (case ls h of
        None \<Rightarrow> ls
      | Some l \<Rightarrow>
          if Primary l = address then ls(h \<mapsto> l\<lparr>Expiration := now + duration\<rparr>) else ls)"

fun ExtendLease ::
  "time \<Rightarrow> time \<Rightarrow> string \<Rightarrow> uint64 list \<Rightarrow> (uint64 \<rightharpoonup> LeaseInfo) \<Rightarrow> (uint64 \<rightharpoonup> LeaseInfo)" where
  "ExtendLease now duration address [] ls = ls"
| "ExtendLease now duration address (h # hs) ls =
     ExtendLease now duration address hs (extendOne now duration address ls h)"

text \<open>
  Modelled from the spec: the namespace manager, as far as the handlers use it, is
  the recorded length of each file; \<open>GetFileLength\<close> fails on a path it does not
  hold, \<open>SetFileLength\<close> records the length.  Its source is not in the files at
  hand.
\<close>

definition GetFileLength :: "(string \<rightharpoonup> int64) \<Rightarrow> string \<Rightarrow> error + int64" where
  "GetFileLength ns path = (case ns path of None \<Rightarrow> Inl NamespaceError | Some l \<Rightarrow> Inr l)"

definition SetFileLength :: "(string \<rightharpoonup> int64) \<Rightarrow> string \<Rightarrow> int64 \<Rightarrow> (string \<rightharpoonup> int64)" where
  "SetFileLength ns path l = ns(path \<mapsto> l)"

text \<open>The fields of \<open>MasterServer\<close> that the two handlers read or write.\<close>

record MasterServer =
  chunkservers :: "string \<rightharpoonup> time"
  namespaceManager :: "string \<rightharpoonup> int64"
  chunkManager :: ChunkManager
  leases :: "uint64 \<rightharpoonup> LeaseInfo"

definition csExtendLease ::
  "time \<Rightarrow> time \<Rightarrow> MasterServer \<Rightarrow> string \<Rightarrow> uint64 list \<Rightarrow> MasterServer" where
  "csExtendLease now duration ms cs chunks_arg =
     ms\<lparr>leases := ExtendLease now duration cs chunks_arg (leases ms)\<rparr>"

text \<open>
  \<open>Heartbeat\<close>: \<open>now\<close> is the value of \<open>time.Now()\<close> in the handler, \<open>later\<close> the
  clock that the lease extension reads after it; the result is the reply string,
  the returned error and the new server state.
\<close>

definition Heartbeat ::
  "time \<Rightarrow> time \<Rightarrow> time \<Rightarrow> MasterServer \<Rightarrow> string \<Rightarrow> uint64 list
     \<Rightarrow> string \<times> error option \<times> MasterServer" where
  "Heartbeat now later duration ms Addr PendingExtensions =
     (let ms1 = ms\<lparr>chunkservers := (chunkservers ms)(Addr \<mapsto> now)\<rparr>;
          ms2 = (if length PendingExtensions > 0
                 then csExtendLease later duration ms1 Addr PendingExtensions
                 else ms1)
      in (''Hello, world.'', None, ms2))"

text \<open>
  \<open>ReportChunk\<close>: \<open>ChunkSize\<close> is a constant declared outside the files at hand and
  is a parameter here.  \<open>int64(ChunkSize * pathIndex.Index) + length\<close> is computed
  on 64-bit words; \<open>calculated > fileLength\<close> compares signed values.
\<close>

definition ReportChunk ::
  "uint64 \<Rightarrow> MasterServer \<Rightarrow> uint64 \<Rightarrow> string \<Rightarrow> int64 \<Rightarrow> error option \<times> MasterServer" where
  "ReportChunk ChunkSize ms handle server len =
     (case GetPathIndexFromHandle (chunkManager ms) handle of
        Inl err \<Rightarrow> (Some err, ms)
      | Inr pathIndex \<Rightarrow>
          (let ms1 = ms\<lparr>chunkManager := snd (SetChunkLocation (chunkManager ms) handle server)\<rparr>
           in case GetFileLength (namespaceManager ms1) (Path pathIndex) of
                Inl err \<Rightarrow> (Some err, ms1)
              | Inr fileLength \<Rightarrow>
                  (let calculated = ChunkSize * Index pathIndex + len
                   in if fileLength <s calculated
                      then (None, ms1\<lparr>namespaceManager :=
                                   SetFileLength (namespaceManager ms1) (Path pathIndex) calculated\<rparr>)
                      else (None, ms1))))"

fun ReportChunks ::
  "uint64 \<Rightarrow> MasterServer \<Rightarrow> (uint64 \<times> string \<times> int64) list \<Rightarrow> MasterServer" where
  "ReportChunks ChunkSize ms [] = ms"
| "ReportChunks ChunkSize ms ((handle, server, len) # rest) =
     ReportChunks ChunkSize (snd (ReportChunk ChunkSize ms handle server len)) rest"

section \<open>Invariants of runs\<close>

text \<open>
  \<open>snapshots_ok env P fs\<close>: every file that decodes to a snapshot with both maps
  holds a durable triple (counter, chunk map, inverse map) with the property \<open>P\<close>.
  The three properties below are what the runs keep: the counter is above every
  handle of the two maps (and at most \<open>n\<close>, so that it has not wrapped), every
  record's handle has a location entry, and the inverse map holds only handles of
  a given set.
\<close>

definition snapshots_ok ::
  "'b disk_env \<Rightarrow> (uint64 \<Rightarrow> (string \<rightharpoonup> (uint64 \<rightharpoonup> Chunk)) \<Rightarrow> (uint64 \<rightharpoonup> PathIndex) \<Rightarrow> bool)
     \<Rightarrow> (string \<rightharpoonup> 'b) \<Rightarrow> bool" where
  "snapshots_ok env P fs \<longleftrightarrow>
     (\<forall>path b d c h. fs path = Some b \<longrightarrow> gob_Decode env b = Some d \<longrightarrow>
        Chunks_pd d = Some c \<longrightarrow> Handles_pd d = Some h \<longrightarrow> P (Handle_pd d) c h)"

definition counter_above ::
  "nat \<Rightarrow> uint64 \<Rightarrow> (string \<rightharpoonup> (uint64 \<rightharpoonup> Chunk)) \<Rightarrow> (uint64 \<rightharpoonup> PathIndex) \<Rightarrow> bool" where
  "counter_above n k c h \<longleftrightarrow>
     unat k \<le> n
     \<and> (\<forall>x pi. h x = Some pi \<longrightarrow> x < k)
     \<and> (\<forall>p cm i r. c p = Some cm \<longrightarrow> cm i = Some r \<longrightarrow> ChunkHandle r < k)"

definition records_located ::
  "uint64 set \<Rightarrow> uint64 \<Rightarrow> (string \<rightharpoonup> (uint64 \<rightharpoonup> Chunk)) \<Rightarrow> (uint64 \<rightharpoonup> PathIndex) \<Rightarrow> bool" where
  "records_located L k c h \<longleftrightarrow>
     (\<forall>p cm i r. c p = Some cm \<longrightarrow> cm i = Some r \<longrightarrow> ChunkHandle r \<in> L)"

definition handles_within ::
  "uint64 set \<Rightarrow> uint64 \<Rightarrow> (string \<rightharpoonup> (uint64 \<rightharpoonup> Chunk)) \<Rightarrow> (uint64 \<rightharpoonup> PathIndex) \<Rightarrow> bool" where
  "handles_within A k c h \<longleftrightarrow> dom h \<subseteq> A"

section \<open>Allocation conflicts\<close>

text \<open>
  C2.  \<open>AddChunk(p, i)\<close> on a pair that is already mapped returns the error
  "Chunk index already exists." and leaves the whole registry as it was: handle
  counter, chunk map, inverse map and location map.
\<close>

theorem AddChunk_conflict:
  assumes "chunks m path = Some cm" and "cm chunkIndex = Some c"
  shows "AddChunk m path chunkIndex perm = Inr (Inl ChunkIndexAlreadyExists, m)"
  using assms by (simp add: AddChunk_def addChunk_def)

theorem AddChunk_conflict_witness:
  "chunks \<lparr>chunkHandle = 1, chunks = [''/f'' \<mapsto> [0 \<mapsto> \<lparr>ChunkHandle = 0\<rparr>]],
           handles = [0 \<mapsto> \<lparr>Path = ''/f'', Index = 0\<rparr>],
           locations = [0 \<mapsto> \<lparr>Handle = 0, Locations = [''A'', ''B'', ''C'']\<rparr>],
           chunkServers = [''A'', ''B'', ''C'']\<rparr> ''/f''
     = Some [0 \<mapsto> \<lparr>ChunkHandle = 0\<rparr>]
   \<and> [(0::uint64) \<mapsto> \<lparr>ChunkHandle = 0\<rparr>] 0 = Some \<lparr>ChunkHandle = 0\<rparr>
   \<and> AddChunk \<lparr>chunkHandle = 1, chunks = [''/f'' \<mapsto> [0 \<mapsto> \<lparr>ChunkHandle = 0\<rparr>]],
           handles = [0 \<mapsto> \<lparr>Path = ''/f'', Index = 0\<rparr>],
           locations = [0 \<mapsto> \<lparr>Handle = 0, Locations = [''A'', ''B'', ''C'']\<rparr>],
           chunkServers = [''A'', ''B'', ''C'']\<rparr> ''/f'' 0 [0, 1, 2]
     = Inr (Inl ChunkIndexAlreadyExists,
         \<lparr>chunkHandle = 1, chunks = [''/f'' \<mapsto> [0 \<mapsto> \<lparr>ChunkHandle = 0\<rparr>]],
           handles = [0 \<mapsto> \<lparr>Path = ''/f'', Index = 0\<rparr>],
           locations = [0 \<mapsto> \<lparr>Handle = 0, Locations = [''A'', ''B'', ''C'']\<rparr>],
           chunkServers = [''A'', ''B'', ''C'']\<rparr>)"
proof -
  let ?cm = "[(0::uint64) \<mapsto> \<lparr>ChunkHandle = 0\<rparr>]"
  let ?m = "\<lparr>chunkHandle = 1, chunks = [''/f'' \<mapsto> ?cm],
           handles = [0 \<mapsto> \<lparr>Path = ''/f'', Index = 0\<rparr>],
           locations = [0 \<mapsto> \<lparr>Handle = 0, Locations = [''A'', ''B'', ''C'']\<rparr>],
           chunkServers = [''A'', ''B'', ''C'']\<rparr>"
  have h1: "chunks ?m ''/f'' = Some ?cm" by simp
  have h2: "?cm 0 = Some \<lparr>ChunkHandle = 0\<rparr>" by simp
  from AddChunk_conflict [OF h1 h2, of "[0, 1, 2]"] h1 h2 show ?thesis by simp
qed

section \<open>Helper facts about the loops and about allocation\<close>

lemma insert_loop_eq:
  "insert_loop array xs elem = (if elem \<in> set xs then array else array @ [elem])"
  by (induction xs) auto

lemma insert_str_eq:
  "insert_str array elem = (if elem \<in> set array then array else array @ [elem])"
  by (simp add: insert_str_def insert_loop_eq)

lemma random_loop_ok:
  "num \<le> length perm \<Longrightarrow> list_all (\<lambda>k. k < length array) perm \<Longrightarrow> i \<le> num
   \<Longrightarrow> length ret = num
   \<Longrightarrow> random_loop array perm num i ret
       = Inr (take i ret @ map (\<lambda>j. array ! (perm ! j)) [i..<num])"
proof (induction array perm num i ret rule: random_loop.induct)
  case (1 array perm num i ret)
  show ?case
  proof (cases "i < num")
    case True
    with "1.prems" have il: "i < length perm" by simp
    with "1.prems" have pl: "perm ! i < length array"
      by (simp add: list_all_length)
    have ih: "random_loop array perm num (Suc i) (ret[i := array ! (perm ! i)])
       = Inr (take (Suc i) (ret[i := array ! (perm ! i)])
              @ map (\<lambda>j. array ! (perm ! j)) [Suc i..<num])"
      using "1.IH" [OF True il pl] "1.prems" True by simp
    have tk: "take (Suc i) (ret[i := array ! (perm ! i)]) = take i ret @ [array ! (perm ! i)]"
      using True "1.prems" by (simp add: take_Suc_conv_app_nth)
    have up: "[i..<num] = i # [Suc i..<num]"
      using True by (simp add: upt_conv_Cons)
    show ?thesis
      by (subst random_loop.simps) (simp add: True il pl ih tk up)
  next
    case False
    with "1.prems" have "i = num" by simp
    then show ?thesis
      using "1.prems" by (subst random_loop.simps) simp
  qed
qed

lemma random_loop_short:
  "length perm < num \<Longrightarrow> list_all (\<lambda>k. k < length array) perm \<Longrightarrow> i \<le> length perm
   \<Longrightarrow> random_loop array perm num i ret = Inl IndexOutOfRange"
proof (induction array perm num i ret rule: random_loop.induct)
  case (1 array perm num i ret)
  from "1.prems" have lt: "i < num" by simp
  show ?case
  proof (cases "i < length perm")
    case True
    with "1.prems" have pl: "perm ! i < length array"
      by (simp add: list_all_length)
    have "random_loop array perm num (Suc i) (ret[i := array ! (perm ! i)]) = Inl IndexOutOfRange"
      using "1.IH" [OF lt True pl] "1.prems" True by simp
    then show ?thesis
      by (subst random_loop.simps) (simp add: lt True pl)
  next
    case False
    then show ?thesis
      by (subst random_loop.simps) (simp add: lt)
  qed
qed

lemma random_strs_ok:
  assumes "Perm_ok (length array) perm" and "num \<le> length array"
  shows "random_strs array num perm = Inr (map ((!) array) (take num perm))"
proof -
  from assms have a: "num \<le> length perm" "list_all (\<lambda>k. k < length array) perm"
    by (simp_all add: Perm_ok_def)
  have "map (\<lambda>j. array ! (perm ! j)) [0..<num] = map ((!) array) (take num perm)"
    using a(1) by (simp add: list_eq_iff_nth_eq)
  with random_loop_ok [OF a, of 0 "replicate num []"] show ?thesis
    by (simp add: random_strs_def)
qed

lemma random_strs_short:
  assumes "Perm_ok (length array) perm" and "length array < num"
  shows "random_strs array num perm = Inl IndexOutOfRange"
  using assms random_loop_short [of perm num array 0]
  by (simp add: random_strs_def Perm_ok_def)

lemma addChunk_error:
  "addChunk m path i perm = Inr (Inl e, m') \<Longrightarrow>
     e = ChunkIndexAlreadyExists \<and> m' = m \<and> (\<exists>cm c. chunks m path = Some cm \<and> cm i = Some c)"
  by (auto simp: addChunk_def Let_def split: option.splits sum.splits)

lemma addChunk_success:
  assumes "addChunk m path i perm = Inr (Inr info, m')"
  shows "info = \<lparr>Handle = chunkHandle m, Locations = Locations info\<rparr>"
    and "random_strs (chunkServers m) 3 perm = Inr (Locations info)"
    and "m' = m\<lparr>chunkHandle := chunkHandle m + 1,
                chunks := (chunks m)(path \<mapsto>
                   (case chunks m path of None \<Rightarrow> Map.empty | Some cm \<Rightarrow> cm)
                     (i \<mapsto> \<lparr>ChunkHandle = chunkHandle m\<rparr>)),
                locations := (locations m)(chunkHandle m \<mapsto> info),
                handles := (handles m)(chunkHandle m \<mapsto> \<lparr>Path = path, Index = i\<rparr>)\<rparr>"
    and "\<forall>cm. chunks m path = Some cm \<longrightarrow> cm i = None"
  using assms
  by (auto simp: addChunk_def Let_def split: option.splits sum.splits)

lemma addChunk_unmapped:
  assumes "\<forall>cm. chunks m path = Some cm \<longrightarrow> cm i = None"
  shows "addChunk m path i perm =
     (case random_strs (chunkServers m) 3 perm of
        Inl a \<Rightarrow> Inl a
      | Inr locs \<Rightarrow>
          Inr (Inr \<lparr>Handle = chunkHandle m, Locations = locs\<rparr>,
               m\<lparr>chunkHandle := chunkHandle m + 1,
                 chunks := (chunks m)(path \<mapsto>
                   (case chunks m path of None \<Rightarrow> Map.empty | Some cm \<Rightarrow> cm)
                     (i \<mapsto> \<lparr>ChunkHandle = chunkHandle m\<rparr>)),
                 locations := (locations m)(chunkHandle m \<mapsto>
                    \<lparr>Handle = chunkHandle m, Locations = locs\<rparr>),
                 handles := (handles m)(chunkHandle m \<mapsto> \<lparr>Path = path, Index = i\<rparr>)\<rparr>))"
  using assms
  by (auto simp: addChunk_def Let_def split: option.splits sum.splits)

section \<open>Replica placement\<close>

text \<open>
  C5 (as amended).  For a pair that is not mapped yet and a permutation from
  \<open>rand.Perm\<close>: with fewer than 3 registered addresses \<open>AddChunk\<close> does not return
  an error, it panics with an index out of range inside \<open>random\<close>; with at least 3
  it returns the addresses at the first 3 positions of the permutation, which are
  3 distinct positions of the registered list, so 3 addresses of the list, and
  distinct addresses when the registered list has no duplicates.
\<close>

theorem AddChunk_replica_choice:
  assumes "Perm_ok (length (chunkServers m)) perm"
    and "\<forall>cm. chunks m path = Some cm \<longrightarrow> cm i = None"
  shows "(length (chunkServers m) < 3 \<longrightarrow> AddChunk m path i perm = Inl IndexOutOfRange)
    \<and> (3 \<le> length (chunkServers m) \<longrightarrow>
         (\<exists>locs m'. AddChunk m path i perm
                       = Inr (Inr \<lparr>Handle = chunkHandle m, Locations = locs\<rparr>, m')
            \<and> locs = map ((!) (chunkServers m)) (take 3 perm)
            \<and> length locs = 3
            \<and> distinct (take 3 perm)
            \<and> set locs \<subseteq> set (chunkServers m)
            \<and> (distinct (chunkServers m) \<longrightarrow> distinct locs)))"
proof (intro conjI impI)
  assume "length (chunkServers m) < 3"
  then have "random_strs (chunkServers m) 3 perm = Inl IndexOutOfRange"
    using assms(1) by (rule random_strs_short [rotated])
  then show "AddChunk m path i perm = Inl IndexOutOfRange"
    by (simp add: AddChunk_def addChunk_unmapped [OF assms(2)])
next
  assume ge: "3 \<le> length (chunkServers m)"
  let ?locs = "map ((!) (chunkServers m)) (take 3 perm)"
  have r: "random_strs (chunkServers m) 3 perm = Inr ?locs"
    using assms(1) ge by (rule random_strs_ok)
  from assms(1) have lp: "length perm = length (chunkServers m)" and dp: "distinct perm"
    and bp: "list_all (\<lambda>k. k < length (chunkServers m)) perm"
    by (simp_all add: Perm_ok_def)
  have dt: "distinct (take 3 perm)" using dp by simp
  have in_range: "\<And>k. k \<in> set (take 3 perm) \<Longrightarrow> k < length (chunkServers m)"
    using bp by (auto simp: list_all_iff dest: in_set_takeD)
  have len: "length ?locs = 3" using ge lp by simp
  have sub: "set ?locs \<subseteq> set (chunkServers m)"
    using in_range by auto
  have dl: "distinct (chunkServers m) \<Longrightarrow> distinct ?locs"
    using dt in_range by (auto simp: distinct_map inj_on_def nth_eq_iff_index_eq)
  show "\<exists>locs m'. AddChunk m path i perm
                       = Inr (Inr \<lparr>Handle = chunkHandle m, Locations = locs\<rparr>, m')
            \<and> locs = map ((!) (chunkServers m)) (take 3 perm)
            \<and> length locs = 3
            \<and> distinct (take 3 perm)
            \<and> set locs \<subseteq> set (chunkServers m)
            \<and> (distinct (chunkServers m) \<longrightarrow> distinct locs)"
    using len dt sub dl
    by (simp add: AddChunk_def addChunk_unmapped [OF assms(2)] r)
qed

theorem AddChunk_replica_choice_witness:
  "Perm_ok (length (chunkServers (NewChunkManager [''A'', ''B'', ''C'', ''D'']))) [2, 0, 3, 1]
   \<and> 3 \<le> length (chunkServers (NewChunkManager [''A'', ''B'', ''C'', ''D'']))
   \<and> distinct (chunkServers (NewChunkManager [''A'', ''B'', ''C'', ''D'']))
   \<and> (\<exists>m'. AddChunk (NewChunkManager [''A'', ''B'', ''C'', ''D'']) ''/f'' 0 [2, 0, 3, 1]
             = Inr (Inr \<lparr>Handle = 0, Locations = [''C'', ''A'', ''D'']\<rparr>, m'))
   \<and> distinct [''C'', ''A'', ''D'']
   \<and> Perm_ok (length (chunkServers (NewChunkManager [''A'', ''B'']))) [1, 0]
   \<and> length (chunkServers (NewChunkManager [''A'', ''B''])) < 3
   \<and> AddChunk (NewChunkManager [''A'', ''B'']) ''/f'' 0 [1, 0] = Inl IndexOutOfRange"
proof -
  let ?m = "NewChunkManager [''A'', ''B'', ''C'', ''D'']"
  let ?n = "NewChunkManager [''A'', ''B'']"
  have p1: "Perm_ok (length (chunkServers ?m)) [2, 0, 3, 1]"
    by (simp add: Perm_ok_def NewChunkManager_def)
  have p2: "Perm_ok (length (chunkServers ?n)) [1, 0]"
    by (simp add: Perm_ok_def NewChunkManager_def)
  have u1: "\<forall>cm. chunks ?m ''/f'' = Some cm \<longrightarrow> cm (0::uint64) = None"
    by (simp add: NewChunkManager_def)
  have u2: "\<forall>cm. chunks ?n ''/f'' = Some cm \<longrightarrow> cm (0::uint64) = None"
    by (simp add: NewChunkManager_def)
  have t3: "take 3 [2, 0, 3, 1::nat] = [2, 0, 3]"
    by (simp add: numeral_3_eq_3)
  from AddChunk_replica_choice [OF p1 u1] AddChunk_replica_choice [OF p2 u2] p1 p2
  show ?thesis
    by (simp add: NewChunkManager_def t3)
qed

text \<open>
  With two registered servers the call panics instead of returning an error, and
  with a server registered twice the three addresses are not distinct.
\<close>

theorem AddChunk_replica_choice_counterexample:
  "AddChunk (NewChunkManager [''A'', ''B'']) ''/f'' 0 [1, 0] = Inl IndexOutOfRange
   \<and> AddChunk (NewChunkManager [''A'', ''A'', ''B'']) ''/f'' 0 [0, 1, 2]
       = Inr (Inr \<lparr>Handle = 0, Locations = [''A'', ''A'', ''B'']\<rparr>,
              \<lparr>chunkHandle = 1,
               chunks = [''/f'' \<mapsto> [0 \<mapsto> \<lparr>ChunkHandle = 0\<rparr>]],
               handles = [0 \<mapsto> \<lparr>Path = ''/f'', Index = 0\<rparr>],
               locations = [0 \<mapsto> \<lparr>Handle = 0, Locations = [''A'', ''A'', ''B'']\<rparr>],
               chunkServers = [''A'', ''A'', ''B'']\<rparr>)"
  by (simp add: AddChunk_def addChunk_def NewChunkManager_def random_strs_def
      random_loop.simps numeral_3_eq_3 Let_def)

section \<open>Location reports for handles that were never allocated\<close>

text \<open>
  C10.  \<open>SetChunkLocation\<close> returns no error on any input and writes only the
  location map, and there only the entry of its handle.  For a handle with no
  location entry (as every handle that was never allocated nor reported) it makes
  the entry with the given address alone; so on a new registry the entry exists
  while the inverse map has nothing for the handle and the chunk map is empty.
\<close>

theorem SetChunkLocation_never_fails:
  "fst (SetChunkLocation m h a) = None
   \<and> chunkHandle (snd (SetChunkLocation m h a)) = chunkHandle m
   \<and> chunks (snd (SetChunkLocation m h a)) = chunks m
   \<and> handles (snd (SetChunkLocation m h a)) = handles m
   \<and> (locations m h = None \<longrightarrow>
        locations (snd (SetChunkLocation m h a)) h = Some \<lparr>Handle = h, Locations = [a]\<rparr>)
   \<and> (\<forall>h'. h' \<noteq> h \<longrightarrow> locations (snd (SetChunkLocation m h a)) h' = locations m h')
   \<and> locations (snd (SetChunkLocation (NewChunkManager servers) h a)) h
        = Some \<lparr>Handle = h, Locations = [a]\<rparr>
   \<and> handles (snd (SetChunkLocation (NewChunkManager servers) h a)) h = None
   \<and> chunks (snd (SetChunkLocation (NewChunkManager servers) h a)) = Map.empty"
  by (simp add: SetChunkLocation_def Let_def insert_str_eq NewChunkManager_def)

theorem SetChunkLocation_never_fails_witness:
  "locations (NewChunkManager [''A'', ''B'', ''C'']) 7 = None
   \<and> (7::uint64) \<noteq> 8
   \<and> fst (SetChunkLocation (NewChunkManager [''A'', ''B'', ''C'']) 7 ''D'') = None
   \<and> locations (snd (SetChunkLocation (NewChunkManager [''A'', ''B'', ''C'']) 7 ''D'')) 7
        = Some \<lparr>Handle = 7, Locations = [''D'']\<rparr>
   \<and> locations (snd (SetChunkLocation (NewChunkManager [''A'', ''B'', ''C'']) 7 ''D'')) 8 = None
   \<and> handles (snd (SetChunkLocation (NewChunkManager [''A'', ''B'', ''C'']) 7 ''D'')) 7 = None"
proof -
  let ?m = "NewChunkManager [''A'', ''B'', ''C'']"
  have h: "locations ?m 7 = None" by (simp add: NewChunkManager_def)
  have n: "(7::uint64) \<noteq> 8" by simp
  from SetChunkLocation_never_fails [of ?m 7 "''D''" "[''A'', ''B'', ''C'']"] h n
  show ?thesis by (simp add: NewChunkManager_def)
qed

section \<open>Round trip through the snapshot\<close>

text \<open>
  C3.  With a gob codec that decodes what it encoded, an encoding that succeeds
  and a path that can be written, \<open>Store\<close> returns, and \<open>Load\<close> of that path into a
  new registry returns with the same handle counter, the same chunk map and the
  same inverse map as the registry that was stored.
\<close>

theorem Store_Load_roundtrip:
  assumes "gob_faithful env"
    and "gob_Encode env \<lparr>Handle_pd = chunkHandle m, Chunks_pd = Some (chunks m),
                           Handles_pd = Some (handles m)\<rparr> = Some b"
    and "path \<in> writable env"
  shows "Store env m path fs = Inr (fs(path \<mapsto> b))
     \<and> (\<exists>m'. Load env (NewChunkManager servers) path (fs(path \<mapsto> b)) = Inr m'
            \<and> chunkHandle m' = chunkHandle m
            \<and> chunks m' = chunks m
            \<and> handles m' = handles m)"
proof -
  from assms(1,2) have "gob_Decode env b
      = Some \<lparr>Handle_pd = chunkHandle m, Chunks_pd = Some (chunks m),
              Handles_pd = Some (handles m)\<rparr>"
    by (simp add: gob_faithful_def)
  then show ?thesis
    using assms(2,3) by (simp add: Store_def Load_def)
qed

theorem Store_Load_roundtrip_witness:
  "gob_faithful \<lparr>gob_Encode = Some, gob_Decode = Some, writable = UNIV\<rparr>
   \<and> (\<exists>m'. Load \<lparr>gob_Encode = Some, gob_Decode = Some, writable = UNIV\<rparr>
              (NewChunkManager [''A'', ''B'', ''C'']) ''snapshot''
              [''snapshot'' \<mapsto> \<lparr>Handle_pd = 1,
                  Chunks_pd = Some [''/f'' \<mapsto> [0 \<mapsto> \<lparr>ChunkHandle = 0\<rparr>]],
                  Handles_pd = Some [0 \<mapsto> \<lparr>Path = ''/f'', Index = 0\<rparr>]\<rparr>] = Inr m'
          \<and> chunkHandle m' = 1
          \<and> chunks m' = [''/f'' \<mapsto> [0 \<mapsto> \<lparr>ChunkHandle = 0\<rparr>]]
          \<and> handles m' = [0 \<mapsto> \<lparr>Path = ''/f'', Index = 0\<rparr>])"
proof -
  let ?env = "\<lparr>gob_Encode = Some, gob_Decode = Some, writable = UNIV\<rparr>
                :: persistentData disk_env"
  let ?m = "\<lparr>chunkHandle = 1, chunks = [''/f'' \<mapsto> [0 \<mapsto> \<lparr>ChunkHandle = 0\<rparr>]],
           handles = [0 \<mapsto> \<lparr>Path = ''/f'', Index = 0\<rparr>],
           locations = [0 \<mapsto> \<lparr>Handle = 0, Locations = [''A'', ''B'', ''C'']\<rparr>],
           chunkServers = [''A'', ''B'', ''C'']\<rparr>"
  let ?d = "\<lparr>Handle_pd = chunkHandle ?m, Chunks_pd = Some (chunks ?m),
             Handles_pd = Some (handles ?m)\<rparr>"
  have f: "gob_faithful ?env" by (simp add: gob_faithful_def)
  have e: "gob_Encode ?env ?d = Some ?d" by simp
  have w: "''snapshot'' \<in> writable ?env" by simp
  from Store_Load_roundtrip [OF f e w, where servers = "[''A'', ''B'', ''C'']" and fs = Map.empty] f
  show ?thesis by simp
qed

section \<open>Lease extension\<close>

lemma ExtendLease_at:
  "ExtendLease now d addr hs ls h =
     (case ls h of
        None \<Rightarrow> None
      | Some l \<Rightarrow> Some (if Primary l = addr \<and> h \<in> set hs
                         then l\<lparr>Expiration := now + d\<rparr> else l))"
proof (induction hs arbitrary: ls)
  case Nil
  then show ?case by (simp split: option.splits)
next
  case (Cons x hs)
  show ?case
    by (auto simp: Cons.IH extendOne_def split: option.splits)
qed

text \<open>
  C7.  \<open>ExtendLease(addr, handles)\<close> leaves the lease of every handle whose primary
  is not \<open>addr\<close> exactly as it was, makes no lease where there was none, and for a
  lease whose primary is \<open>addr\<close> changes the expiration alone, to now plus the
  duration, and only for the handles of the batch.  \<open>Heartbeat\<close>, which forwards the
  batch, returns no error.
\<close>

theorem ExtendLease_only_primary:
  "(\<forall>h l. ls h = Some l \<longrightarrow> Primary l \<noteq> addr \<longrightarrow>
        ExtendLease now d addr hs ls h = Some l)
   \<and> (\<forall>h. ls h = None \<longrightarrow> ExtendLease now d addr hs ls h = None)
   \<and> (\<forall>h l. ls h = Some l \<longrightarrow> Primary l = addr \<longrightarrow>
        ExtendLease now d addr hs ls h
          = Some (if h \<in> set hs then l\<lparr>Expiration := now + d\<rparr> else l))
   \<and> fst (snd (Heartbeat t0 now d ms addr hs)) = None
   \<and> leases (snd (snd (Heartbeat t0 now d ms addr hs))) = ExtendLease now d addr hs (leases ms)"
proof -
  have "leases (snd (snd (Heartbeat t0 now d ms addr hs))) = ExtendLease now d addr hs (leases ms)"
    by (cases hs) (simp_all add: Heartbeat_def csExtendLease_def Let_def)
  then show ?thesis
    by (simp add: ExtendLease_at Heartbeat_def Let_def)
qed

theorem ExtendLease_only_primary_witness:
  "[(0::uint64) \<mapsto> \<lparr>Lease_handle = 0, Primary = ''A'', Replicas = [''A'', ''B'', ''C''],
                        Expiration = 100\<rparr>,
    1 \<mapsto> \<lparr>Lease_handle = 1, Primary = ''B'', Replicas = [''A'', ''B'', ''C''],
           Expiration = 100\<rparr>] 0
     = Some \<lparr>Lease_handle = 0, Primary = ''A'', Replicas = [''A'', ''B'', ''C''],
             Expiration = 100\<rparr>
   \<and> ExtendLease 150 60 ''B'' [0, 1, 2]
       [(0::uint64) \<mapsto> \<lparr>Lease_handle = 0, Primary = ''A'', Replicas = [''A'', ''B'', ''C''],
                        Expiration = 100\<rparr>,
        1 \<mapsto> \<lparr>Lease_handle = 1, Primary = ''B'', Replicas = [''A'', ''B'', ''C''],
               Expiration = 100\<rparr>] 0
      = Some \<lparr>Lease_handle = 0, Primary = ''A'', Replicas = [''A'', ''B'', ''C''],
              Expiration = 100\<rparr>
   \<and> ExtendLease 150 60 ''B'' [0, 1, 2]
       [(0::uint64) \<mapsto> \<lparr>Lease_handle = 0, Primary = ''A'', Replicas = [''A'', ''B'', ''C''],
                        Expiration = 100\<rparr>,
        1 \<mapsto> \<lparr>Lease_handle = 1, Primary = ''B'', Replicas = [''A'', ''B'', ''C''],
               Expiration = 100\<rparr>] 1
      = Some \<lparr>Lease_handle = 1, Primary = ''B'', Replicas = [''A'', ''B'', ''C''],
              Expiration = 210\<rparr>
   \<and> ExtendLease 150 60 ''B'' [0, 1, 2]
       [(0::uint64) \<mapsto> \<lparr>Lease_handle = 0, Primary = ''A'', Replicas = [''A'', ''B'', ''C''],
                        Expiration = 100\<rparr>,
        1 \<mapsto> \<lparr>Lease_handle = 1, Primary = ''B'', Replicas = [''A'', ''B'', ''C''],
               Expiration = 100\<rparr>] 2
      = None"
proof -
  let ?l0 = "\<lparr>Lease_handle = 0, Primary = ''A'', Replicas = [''A'', ''B'', ''C''],
              Expiration = 100\<rparr>"
  let ?l1 = "\<lparr>Lease_handle = 1, Primary = ''B'', Replicas = [''A'', ''B'', ''C''],
              Expiration = 100\<rparr>"
  let ?ls = "[(0::uint64) \<mapsto> ?l0, 1 \<mapsto> ?l1]"
  have a: "?ls 0 = Some ?l0" by simp
  have b: "?ls 1 = Some ?l1" by simp
  have c: "?ls 2 = None" by simp
  have p0: "Primary ?l0 \<noteq> ''B''" by simp
  have p1: "Primary ?l1 = ''B''" by simp
  note t = ExtendLease_only_primary [where ls = ?ls and addr = "''B''" and now = 150 and d = 60
      and hs = "[0, 1, 2]"]
  from t a p0 have r0: "ExtendLease 150 60 ''B'' [0, 1, 2] ?ls 0 = Some ?l0" by blast
  from t b p1 have r1: "ExtendLease 150 60 ''B'' [0, 1, 2] ?ls 1
      = Some (if (1::uint64) \<in> set [0, 1, 2] then ?l1\<lparr>Expiration := 150 + 60\<rparr> else ?l1)"
    by blast
  from t c have r2: "ExtendLease 150 60 ''B'' [0, 1, 2] ?ls 2 = None" by blast
  from r1 have r1': "ExtendLease 150 60 ''B'' [0, 1, 2] ?ls 1
      = Some \<lparr>Lease_handle = 1, Primary = ''B'', Replicas = [''A'', ''B'', ''C''],
              Expiration = 210\<rparr>"
    by simp
  from a r0 r1' r2 show ?thesis by blast
qed

section \<open>File lengths learned from chunk reports\<close>

lemma ReportChunk_namespace:
  "namespaceManager (snd (ReportChunk cs ms h srv len)) =
     (case handles (chunkManager ms) h of
        None \<Rightarrow> namespaceManager ms
      | Some pi \<Rightarrow>
          (case namespaceManager ms (Path pi) of
             None \<Rightarrow> namespaceManager ms
           | Some old \<Rightarrow>
               if old <s cs * Index pi + len
               then (namespaceManager ms)(Path pi \<mapsto> cs * Index pi + len)
               else namespaceManager ms))"
  by (simp add: ReportChunk_def GetPathIndexFromHandle_def GetFileLength_def
      SetFileLength_def Let_def split: option.splits)

lemma ReportChunk_grows:
  assumes "namespaceManager ms p = Some old"
  shows "\<exists>new. namespaceManager (snd (ReportChunk cs ms h srv len)) p = Some new \<and> old \<le>s new"
  using assms
  by (auto simp: ReportChunk_namespace word_sle_eq word_sless_alt split: option.splits)

lemma ReportChunks_grows:
  "namespaceManager ms p = Some old \<Longrightarrow>
     \<exists>new. namespaceManager (ReportChunks cs ms reports) p = Some new \<and> old \<le>s new"
proof (induction reports arbitrary: ms old)
  case Nil
  then show ?case by simp
next
  case (Cons r reports)
  obtain h srv len where r: "r = (h, srv, len)" by (cases r)
  from ReportChunk_grows [OF Cons.prems, of cs h srv len]
  obtain mid where mid: "namespaceManager (snd (ReportChunk cs ms h srv len)) p = Some mid"
    and le: "old \<le>s mid" by blast
  from Cons.IH [OF mid]
  obtain new where "namespaceManager (ReportChunks cs (snd (ReportChunk cs ms h srv len)) reports) p
      = Some new" and "mid \<le>s new" by blast
  with le r show ?case by (auto simp: word_sle_eq)
qed

lemma calculated_value:
  fixes cs idx len :: "64 word"
  assumes "- (2 ^ 63) \<le> uint cs * uint idx + sint len"
    and "uint cs * uint idx + sint len < 2 ^ 63"
  shows "sint (cs * idx + len) = uint cs * uint idx + sint len"
proof -
  have "cs * idx + len = word_of_int (uint cs * uint idx + sint len)"
    by simp
  then have "sint (cs * idx + len) = signed_take_bit 63 (uint cs * uint idx + sint len)"
    by (simp only: sint_sbintrunc') simp
  also have "\<dots> = uint cs * uint idx + sint len"
    using assms by (simp add: signed_take_bit_int_eq_self)
  finally show ?thesis .
qed

text \<open>
  C8.  \<open>ReportChunk(handle, server, length)\<close> changes a recorded file length only
  for the path of the handle, only to \<open>ChunkSize * chunkIndex + length\<close> (on 64-bit
  words, as the source computes it) and only when that value is greater than the
  recorded one as a signed number; when it is greater, the length is set to it.
  Under any list of reports a recorded length stays recorded and never gets
  smaller.  Where the sum does not overflow, the word is the number
  \<open>ChunkSize * chunkIndex + length\<close>.
\<close>

theorem ReportChunk_file_length:
  "(\<forall>p new. namespaceManager (snd (ReportChunk cs ms h srv len)) p = Some new \<longrightarrow>
        namespaceManager ms p \<noteq> Some new \<longrightarrow>
        (\<exists>pi old. GetPathIndexFromHandle (chunkManager ms) h = Inr pi \<and> Path pi = p
           \<and> namespaceManager ms p = Some old \<and> new = cs * Index pi + len \<and> old <s new))
   \<and> (\<forall>pi old. GetPathIndexFromHandle (chunkManager ms) h = Inr pi \<longrightarrow>
        namespaceManager ms (Path pi) = Some old \<longrightarrow>
        namespaceManager (snd (ReportChunk cs ms h srv len)) (Path pi)
          = Some (if old <s cs * Index pi + len then cs * Index pi + len else old))
   \<and> (\<forall>p old. namespaceManager ms p = Some old \<longrightarrow>
        (\<exists>new. namespaceManager (ReportChunks cs ms reports) p = Some new \<and> old \<le>s new))
   \<and> (\<forall>idx. - (2 ^ 63) \<le> uint cs * uint idx + sint len \<longrightarrow>
        uint cs * uint idx + sint len < 2 ^ 63 \<longrightarrow>
        sint (cs * idx + len) = uint cs * uint idx + sint len)"
proof (intro conjI allI impI)
  fix p new
  assume "namespaceManager (snd (ReportChunk cs ms h srv len)) p = Some new"
    and "namespaceManager ms p \<noteq> Some new"
  then show "\<exists>pi old. GetPathIndexFromHandle (chunkManager ms) h = Inr pi \<and> Path pi = p
           \<and> namespaceManager ms p = Some old \<and> new = cs * Index pi + len \<and> old <s new"
    by (auto simp: ReportChunk_namespace GetPathIndexFromHandle_def
        split: option.splits if_splits)
next
  fix pi old
  assume "GetPathIndexFromHandle (chunkManager ms) h = Inr pi"
    and "namespaceManager ms (Path pi) = Some old"
  then show "namespaceManager (snd (ReportChunk cs ms h srv len)) (Path pi)
          = Some (if old <s cs * Index pi + len then cs * Index pi + len else old)"
    by (auto simp: ReportChunk_namespace GetPathIndexFromHandle_def split: option.splits)
next
  fix p old
  assume "namespaceManager ms p = Some old"
  then show "\<exists>new. namespaceManager (ReportChunks cs ms reports) p = Some new \<and> old \<le>s new"
    by (rule ReportChunks_grows)
next
  fix idx :: uint64
  assume "- (2 ^ 63) \<le> uint cs * uint idx + sint len"
    and "uint cs * uint idx + sint len < 2 ^ 63"
  then show "sint (cs * idx + len) = uint cs * uint idx + sint len"
    by (rule calculated_value)
qed


theorem ReportChunk_file_length_witness:
  "GetPathIndexFromHandle
      (chunkManager \<lparr>chunkservers = Map.empty, namespaceManager = [''/f'' \<mapsto> 1000],
         chunkManager = \<lparr>chunkHandle = 1, chunks = [''/f'' \<mapsto> [2 \<mapsto> \<lparr>ChunkHandle = 0\<rparr>]],
           handles = [0 \<mapsto> \<lparr>Path = ''/f'', Index = 2\<rparr>],
           locations = [0 \<mapsto> \<lparr>Handle = 0, Locations = [''A'', ''B'', ''C'']\<rparr>],
           chunkServers = [''A'', ''B'', ''C'']\<rparr>,
         leases = Map.empty\<rparr>) 0 = Inr \<lparr>Path = ''/f'', Index = 2\<rparr>
   \<and> (1000 :: int64) <s 67108864 * 2 + 1000
   \<and> namespaceManager (snd (ReportChunk 67108864
        \<lparr>chunkservers = Map.empty, namespaceManager = [''/f'' \<mapsto> 1000],
         chunkManager = \<lparr>chunkHandle = 1, chunks = [''/f'' \<mapsto> [2 \<mapsto> \<lparr>ChunkHandle = 0\<rparr>]],
           handles = [0 \<mapsto> \<lparr>Path = ''/f'', Index = 2\<rparr>],
           locations = [0 \<mapsto> \<lparr>Handle = 0, Locations = [''A'', ''B'', ''C'']\<rparr>],
           chunkServers = [''A'', ''B'', ''C'']\<rparr>,
         leases = Map.empty\<rparr> 0 ''D'' 1000)) ''/f'' = Some 134218728
   \<and> (\<exists>new. namespaceManager (ReportChunks 67108864
        \<lparr>chunkservers = Map.empty, namespaceManager = [''/f'' \<mapsto> 1000],
         chunkManager = \<lparr>chunkHandle = 1, chunks = [''/f'' \<mapsto> [2 \<mapsto> \<lparr>ChunkHandle = 0\<rparr>]],
           handles = [0 \<mapsto> \<lparr>Path = ''/f'', Index = 2\<rparr>],
           locations = [0 \<mapsto> \<lparr>Handle = 0, Locations = [''A'', ''B'', ''C'']\<rparr>],
           chunkServers = [''A'', ''B'', ''C'']\<rparr>,
         leases = Map.empty\<rparr> [(0, ''D'', 1000), (0, ''E'', 5)]) ''/f'' = Some new
        \<and> 1000 \<le>s new)
   \<and> sint (67108864 * 2 + 1000 :: int64) = 134218728
   \<and> namespaceManager
        \<lparr>chunkservers = Map.empty, namespaceManager = [''/f'' \<mapsto> 1000],
         chunkManager = \<lparr>chunkHandle = 1, chunks = [''/f'' \<mapsto> [2 \<mapsto> \<lparr>ChunkHandle = 0\<rparr>]],
           handles = [0 \<mapsto> \<lparr>Path = ''/f'', Index = 2\<rparr>],
           locations = [0 \<mapsto> \<lparr>Handle = 0, Locations = [''A'', ''B'', ''C'']\<rparr>],
           chunkServers = [''A'', ''B'', ''C'']\<rparr>,
         leases = Map.empty\<rparr> ''/f'' \<noteq> Some 134218728
   \<and> (\<exists>pi old. GetPathIndexFromHandle
        (chunkManager \<lparr>chunkservers = Map.empty, namespaceManager = [''/f'' \<mapsto> 1000],
         chunkManager = \<lparr>chunkHandle = 1, chunks = [''/f'' \<mapsto> [2 \<mapsto> \<lparr>ChunkHandle = 0\<rparr>]],
           handles = [0 \<mapsto> \<lparr>Path = ''/f'', Index = 2\<rparr>],
           locations = [0 \<mapsto> \<lparr>Handle = 0, Locations = [''A'', ''B'', ''C'']\<rparr>],
           chunkServers = [''A'', ''B'', ''C'']\<rparr>,
         leases = Map.empty\<rparr>) 0 = Inr pi
        \<and> Path pi = ''/f''
        \<and> namespaceManager
        \<lparr>chunkservers = Map.empty, namespaceManager = [''/f'' \<mapsto> 1000],
         chunkManager = \<lparr>chunkHandle = 1, chunks = [''/f'' \<mapsto> [2 \<mapsto> \<lparr>ChunkHandle = 0\<rparr>]],
           handles = [0 \<mapsto> \<lparr>Path = ''/f'', Index = 2\<rparr>],
           locations = [0 \<mapsto> \<lparr>Handle = 0, Locations = [''A'', ''B'', ''C'']\<rparr>],
           chunkServers = [''A'', ''B'', ''C'']\<rparr>,
         leases = Map.empty\<rparr> ''/f'' = Some old
        \<and> 134218728 = 67108864 * Index pi + 1000 \<and> old <s 134218728)"
proof -
  let ?ms = "\<lparr>chunkservers = Map.empty, namespaceManager = [''/f'' \<mapsto> 1000],
         chunkManager = \<lparr>chunkHandle = 1, chunks = [''/f'' \<mapsto> [2 \<mapsto> \<lparr>ChunkHandle = 0\<rparr>]],
           handles = [0 \<mapsto> \<lparr>Path = ''/f'', Index = 2\<rparr>],
           locations = [0 \<mapsto> \<lparr>Handle = 0, Locations = [''A'', ''B'', ''C'']\<rparr>],
           chunkServers = [''A'', ''B'', ''C'']\<rparr>,
         leases = Map.empty\<rparr>"
  note t = ReportChunk_file_length [of 67108864 ?ms 0 "''D''" 1000 "[(0, ''D'', 1000), (0, ''E'', 5)]"]
  have g: "GetPathIndexFromHandle (chunkManager ?ms) 0 = Inr \<lparr>Path = ''/f'', Index = 2\<rparr>"
    by (simp add: GetPathIndexFromHandle_def)
  have n: "namespaceManager ?ms (Path \<lparr>Path = ''/f'', Index = 2\<rparr>) = Some 1000"
    by simp
  have n': "namespaceManager ?ms ''/f'' = Some 1000"
    by simp
  have lt: "(1000 :: int64) <s 67108864 * 2 + 1000"
    by (simp add: word_sless_alt)
  from t g n have a: "namespaceManager (snd (ReportChunk 67108864 ?ms 0 ''D'' 1000))
      (Path \<lparr>Path = ''/f'', Index = 2\<rparr>)
      = Some (if 1000 <s 67108864 * Index \<lparr>Path = ''/f'', Index = 2\<rparr> + 1000
              then 67108864 * Index \<lparr>Path = ''/f'', Index = 2\<rparr> + 1000 else 1000)"
    by blast
  from a lt have a': "namespaceManager (snd (ReportChunk 67108864 ?ms 0 ''D'' 1000)) ''/f''
      = Some 134218728"
    by simp
  from t n' have b: "\<exists>new. namespaceManager (ReportChunks 67108864 ?ms
        [(0, ''D'', 1000), (0, ''E'', 5)]) ''/f'' = Some new \<and> 1000 \<le>s new"
    by blast
  have r1: "- (2 ^ 63) \<le> uint (67108864 :: uint64) * uint (2 :: uint64) + sint (1000 :: int64)"
    by simp
  have r2: "uint (67108864 :: uint64) * uint (2 :: uint64) + sint (1000 :: int64) < 2 ^ 63"
    by simp
  from t r1 r2 have "sint (67108864 * 2 + 1000 :: int64)
      = uint (67108864 :: uint64) * uint (2 :: uint64) + sint (1000 :: int64)"
    by blast
  then have c: "sint (67108864 * 2 + 1000 :: int64) = 134218728"
    by simp
  have ne: "namespaceManager ?ms ''/f'' \<noteq> Some 134218728" by simp
  note d = t [THEN conjunct1, rule_format, OF a' ne]
  from g lt a' b c ne d show ?thesis by (intro conjI)
qed

section \<open>Runs keep the counter above the handles\<close>

lemma snapshots_ok_empty: "snapshots_ok env P Map.empty"
  by (simp add: snapshots_ok_def)

lemma snapshots_ok_mono:
  "snapshots_ok env P fs \<Longrightarrow> (\<And>k c h. P k c h \<Longrightarrow> Q k c h) \<Longrightarrow> snapshots_ok env Q fs"
  unfolding snapshots_ok_def by blast

lemma snapshots_ok_Store:
  assumes "gob_faithful env" and "snapshots_ok env P fs"
    and "P (chunkHandle m) (chunks m) (handles m)"
    and "Store env m path fs = Inr fs'"
  shows "snapshots_ok env P fs'"
proof -
  from assms(4) obtain b where
    e: "gob_Encode env \<lparr>Handle_pd = chunkHandle m, Chunks_pd = Some (chunks m),
                           Handles_pd = Some (handles m)\<rparr> = Some b"
    and fs': "fs' = fs(path \<mapsto> b)"
    by (auto simp: Store_def split: option.splits if_splits)
  from assms(1) e have d: "gob_Decode env b
      = Some \<lparr>Handle_pd = chunkHandle m, Chunks_pd = Some (chunks m),
              Handles_pd = Some (handles m)\<rparr>"
    by (simp add: gob_faithful_def)
  show ?thesis
    unfolding snapshots_ok_def
  proof (intro allI impI)
    fix path' b' d' c h
    assume a: "fs' path' = Some b'" "gob_Decode env b' = Some d'"
      "Chunks_pd d' = Some c" "Handles_pd d' = Some h"
    show "P (Handle_pd d') c h"
    proof (cases "path' = path")
      case True
      with a fs' d assms(3) show ?thesis by auto
    next
      case False
      with a fs' assms(2) show ?thesis
        unfolding snapshots_ok_def by auto
    qed
  qed
qed

lemma snapshots_ok_Load:
  assumes "snapshots_ok env P fs" and "Load env m path fs = Inr m'"
  shows "P (chunkHandle m') (chunks m') (handles m')"
    and "locations m' = locations m" and "chunkServers m' = chunkServers m"
  using assms
  by (auto simp: Load_def snapshots_ok_def split: option.splits)

lemma run_append:
  "run env (xs @ ys) s =
     (case run env xs s of
        Inl a \<Rightarrow> Inl a
      | Inr (rs1, s1) \<Rightarrow>
          (case run env ys s1 of
             Inl a \<Rightarrow> Inl a
           | Inr (rs2, s2) \<Rightarrow> Inr (rs1 @ rs2, s2)))"
  by (induction xs arbitrary: s) (auto split: sum.splits prod.splits)

lemma run_length:
  "run env ops s = Inr (rs, s') \<Longrightarrow> length rs = length ops"
  by (induction ops arbitrary: s rs) (auto split: sum.splits prod.splits)

lemma step_cases:
  assumes "step env x (m, fs) = Inr (r, m', fs')"
  obtains
    (added) p i perm info where "x = AddChunk_op p i perm" "r = Info_reply (Inr info)"
      "addChunk m p i perm = Inr (Inr info, m')" "fs' = fs"
  | (conflict) p i perm e where "x = AddChunk_op p i perm" "r = Info_reply (Inl e)"
      "m' = m" "fs' = fs"
  | (find) p i where "x = FindLocations_op p i" "m' = m" "fs' = fs"
      "r = Info_reply (FindLocations m p i)"
  | (get) h where "x = GetPathIndexFromHandle_op h" "m' = m" "fs' = fs"
      "r = PathIndex_reply (GetPathIndexFromHandle m h)"
  | (setloc) h a where "x = SetChunkLocation_op h a" "m' = snd (SetChunkLocation m h a)"
      "fs' = fs" "r = Error_reply None"
  | (store) path where "x = Store_op path" "m' = m" "Store env m path fs = Inr fs'"
      "r = No_reply"
  | (load) path where "x = Load_op path" "Load env m path fs = Inr m'" "fs' = fs"
      "r = No_reply"
proof (cases x)
  case (AddChunk_op p i perm)
  with assms obtain res where a: "addChunk m p i perm = Inr (res, m')"
    and r: "r = Info_reply res" and f: "fs' = fs"
    by (auto simp: AddChunk_def split: sum.splits prod.splits)
  show ?thesis
  proof (cases res)
    case (Inl e)
    with a addChunk_error [of m p i perm e m'] have "m' = m" by simp
    with AddChunk_op r f Inl show ?thesis by (rule_tac conflict) auto
  next
    case (Inr info)
    with AddChunk_op r f a show ?thesis by (rule_tac added) auto
  qed
next
  case (FindLocations_op p i)
  with assms show ?thesis by (rule_tac find) auto
next
  case (GetPathIndexFromHandle_op h)
  with assms show ?thesis by (rule_tac get) auto
next
  case (SetChunkLocation_op h a)
  with assms show ?thesis
    by (rule_tac setloc) (auto simp: SetChunkLocation_def Let_def)
next
  case (Store_op path)
  with assms show ?thesis by (rule_tac store) (auto split: sum.splits)
next
  case (Load_op path)
  with assms show ?thesis by (rule_tac load) (auto split: sum.splits)
qed

lemma SetChunkLocation_durable:
  "chunkHandle (snd (SetChunkLocation m h a)) = chunkHandle m"
  "chunks (snd (SetChunkLocation m h a)) = chunks m"
  "handles (snd (SetChunkLocation m h a)) = handles m"
  "chunkServers (snd (SetChunkLocation m h a)) = chunkServers m"
  "dom (locations (snd (SetChunkLocation m h a))) = insert h (dom (locations m))"
  by (auto simp: SetChunkLocation_def Let_def)

lemma counter_succ:
  fixes k :: uint64
  assumes "unat k \<le> n" and "Suc n < 2 ^ 64"
  shows "unat (k + 1) = Suc (unat k)" and "k < k + 1" and "\<And>x. x < k \<Longrightarrow> x < k + 1"
    and "\<And>x. k \<le> x \<Longrightarrow> x \<noteq> k \<Longrightarrow> k + 1 \<le> x"
proof -
  have "unat k + unat (1 :: uint64) < 2 ^ LENGTH(64)"
    using assms by simp
  then have "unat (k + 1) = unat k + unat (1 :: uint64)"
    by (simp only: unat_add_lem)
  then show u: "unat (k + 1) = Suc (unat k)" by simp
  then show "k < k + 1" by (simp add: word_less_nat_alt)
  show "\<And>x. x < k \<Longrightarrow> x < k + 1" using u by (simp add: word_less_nat_alt)
  show "\<And>x. k \<le> x \<Longrightarrow> x \<noteq> k \<Longrightarrow> k + 1 \<le> x"
    using u by (auto simp: word_le_nat_alt word_unat_eq_iff)
qed

lemma counter_above_mono:
  "counter_above n k c h \<Longrightarrow> n \<le> n' \<Longrightarrow> counter_above n' k c h"
  by (auto simp: counter_above_def)

lemma counter_above_addChunk:
  assumes "counter_above n (chunkHandle m) (chunks m) (handles m)"
    and "Suc n < 2 ^ 64"
    and "addChunk m p i perm = Inr (Inr info, m')"
  shows "counter_above (Suc n) (chunkHandle m') (chunks m') (handles m')"
proof -
  let ?k = "chunkHandle m"
  from assms(1) have un: "unat ?k \<le> n" by (simp add: counter_above_def)
  note s = counter_succ [OF un assms(2)]
  note a = addChunk_success [OF assms(3)]
  have k': "chunkHandle m' = ?k + 1" by (subst a(3)) simp
  have h': "handles m' = (handles m)(?k \<mapsto> \<lparr>Path = p, Index = i\<rparr>)"
    by (subst a(3)) simp
  have c': "chunks m' = (chunks m)(p \<mapsto>
                   (case chunks m p of None \<Rightarrow> Map.empty | Some cm \<Rightarrow> cm)
                     (i \<mapsto> \<lparr>ChunkHandle = ?k\<rparr>))"
    by (subst a(3)) simp
  have 1: "unat (chunkHandle m') \<le> Suc n" using un s(1) k' by simp
  have 2: "\<And>x pi. handles m' x = Some pi \<Longrightarrow> x < chunkHandle m'"
    using assms(1) s(2,3) unfolding h' k' counter_above_def
    by (auto split: if_splits)
  have 3: "\<And>q cm j r. chunks m' q = Some cm \<Longrightarrow> cm j = Some r \<Longrightarrow> ChunkHandle r < chunkHandle m'"
  proof -
    fix q cm j r
    assume q: "chunks m' q = Some cm" and j: "cm j = Some r"
    show "ChunkHandle r < chunkHandle m'"
    proof (cases "q = p \<and> j = i")
      case True
      with q j c' have "ChunkHandle r = ?k" by auto
      with s(2) k' show ?thesis by simp
    next
      case False
      with q j c' have "\<exists>cm0. chunks m q = Some cm0 \<and> cm0 j = Some r"
        by (auto split: if_splits option.splits)
      with assms(1) have "ChunkHandle r < ?k"
        unfolding counter_above_def by blast
      with s(3) k' show ?thesis by simp
    qed
  qed
  from 1 2 3 show ?thesis unfolding counter_above_def by blast
qed

lemma step_counter_above:
  assumes "gob_faithful env"
    and "counter_above n (chunkHandle m) (chunks m) (handles m)"
    and "snapshots_ok env (counter_above n) fs"
    and "Suc n < 2 ^ 64"
    and "step env x (m, fs) = Inr (r, m', fs')"
  shows "counter_above (Suc n) (chunkHandle m') (chunks m') (handles m')
       \<and> snapshots_ok env (counter_above (Suc n)) fs'"
proof -
  have up: "\<And>k c h. counter_above n k c h \<Longrightarrow> counter_above (Suc n) k c h"
    by (erule counter_above_mono) simp
  have m1: "counter_above (Suc n) (chunkHandle m) (chunks m) (handles m)"
    using assms(2) by (rule up)
  have f1: "snapshots_ok env (counter_above (Suc n)) fs"
    using assms(3) up by (rule snapshots_ok_mono)
  from assms(5) show ?thesis
  proof (cases rule: step_cases)
    case (added p i perm info)
    with counter_above_addChunk [OF assms(2,4)] f1 show ?thesis by simp
  next
    case (conflict p i perm e)
    with m1 f1 show ?thesis by simp
  next
    case (find p i)
    with m1 f1 show ?thesis by simp
  next
    case (get h)
    with m1 f1 show ?thesis by simp
  next
    case (setloc h a)
    with m1 f1 show ?thesis by (simp add: SetChunkLocation_durable)
  next
    case (store path)
    with m1 snapshots_ok_Store [OF assms(1) f1 m1] show ?thesis by simp
  next
    case (load path)
    with f1 snapshots_ok_Load(1) [OF f1] show ?thesis by simp
  qed
qed

lemma run_counter_above:
  assumes "gob_faithful env"
  shows "run env ops (m, fs) = Inr (rs, m', fs') \<Longrightarrow>
     counter_above n (chunkHandle m) (chunks m) (handles m) \<Longrightarrow>
     snapshots_ok env (counter_above n) fs \<Longrightarrow>
     n + length ops < 2 ^ 64 \<Longrightarrow>
     counter_above (n + length ops) (chunkHandle m') (chunks m') (handles m')
       \<and> snapshots_ok env (counter_above (n + length ops)) fs'"
proof (induction ops arbitrary: m fs rs n)
  case Nil
  then show ?case by simp
next
  case (Cons x xs)
  from Cons.prems(1) obtain r m1 fs1 rs1 where
    st: "step env x (m, fs) = Inr (r, m1, fs1)"
    and rn: "run env xs (m1, fs1) = Inr (rs1, m', fs')"
    by (auto split: sum.splits prod.splits)
  from Cons.prems(4) have b: "Suc n < 2 ^ 64" and b': "Suc n + length xs < 2 ^ 64"
    by simp_all
  from step_counter_above [OF assms Cons.prems(2,3) b st]
  have "counter_above (Suc n) (chunkHandle m1) (chunks m1) (handles m1)"
    and "snapshots_ok env (counter_above (Suc n)) fs1" by simp_all
  from Cons.IH [OF rn this b'] show ?case by simp
qed

lemma NewChunkManager_counter_above:
  "counter_above 0 (chunkHandle (NewChunkManager servers)) (chunks (NewChunkManager servers))
     (handles (NewChunkManager servers))"
  by (simp add: counter_above_def NewChunkManager_def)

section \<open>Handles are allocated in increasing order\<close>

lemma allocations_skip:
  assumes "\<not> (\<exists>p i perm info. x = AddChunk_op p i perm \<and> r = Info_reply (Inr info))"
  shows "allocations (x # xs) (r # rs) = allocations xs rs"
proof (cases x)
  case (AddChunk_op p i perm)
  with assms show ?thesis
    by (cases r) (auto split: sum.splits, (case_tac x1, auto)+)
qed simp_all

lemma step_allocations:
  assumes "step env x (m, fs) = Inr (r, m', fs')" and "\<not> is_Load x"
  shows "(chunkHandle m' = chunkHandle m \<and> handles m' = handles m
            \<and> allocations (x # xs) (r # rs) = allocations xs rs)
       \<or> (chunkHandle m' = chunkHandle m + 1
            \<and> (\<exists>pi. handles m' = (handles m)(chunkHandle m \<mapsto> pi)
                  \<and> allocations (x # xs) (r # rs) = (chunkHandle m, pi) # allocations xs rs))"
  using assms(1)
proof (cases rule: step_cases)
  case (added p i perm info)
  note a = addChunk_success [OF added(3)]
  have "Handle info = chunkHandle m" by (subst a(1)) simp
  moreover have "chunkHandle m' = chunkHandle m + 1" by (subst a(3)) simp
  moreover have "handles m' = (handles m)(chunkHandle m \<mapsto> \<lparr>Path = p, Index = i\<rparr>)"
    by (subst a(3)) simp
  ultimately show ?thesis using added by simp
next
  case (conflict p i perm e)
  then show ?thesis by (simp add: allocations_skip)
next
  case (find p i)
  then show ?thesis by (simp add: allocations_skip)
next
  case (get h)
  then show ?thesis by (simp add: allocations_skip)
next
  case (setloc h a)
  then show ?thesis by (simp add: allocations_skip SetChunkLocation_durable)
next
  case (store path)
  then show ?thesis by (simp add: allocations_skip)
next
  case (load path)
  with assms(2) show ?thesis by simp
qed

lemma run_allocations_sorted:
  "run env ops (m, fs) = Inr (rs, m', fs') \<Longrightarrow> \<not> list_ex is_Load ops \<Longrightarrow>
   unat (chunkHandle m) + length ops < 2 ^ 64 \<Longrightarrow>
     sorted_wrt (<) (map fst (allocations ops rs))
     \<and> (\<forall>h \<in> set (map fst (allocations ops rs)). chunkHandle m \<le> h \<and> h < chunkHandle m')
     \<and> chunkHandle m \<le> chunkHandle m'
     \<and> unat (chunkHandle m') \<le> unat (chunkHandle m) + length ops"
proof (induction ops arbitrary: m fs rs)
  case Nil
  then show ?case by simp
next
  case (Cons x xs)
  from Cons.prems(1) obtain r m1 fs1 rs1 where
    st: "step env x (m, fs) = Inr (r, m1, fs1)"
    and rn: "run env xs (m1, fs1) = Inr (rs1, m', fs')"
    and rs: "rs = r # rs1"
    by (auto split: sum.splits prod.splits)
  from Cons.prems(2) have nl: "\<not> is_Load x" and nls: "\<not> list_ex is_Load xs" by simp_all
  let ?k = "chunkHandle m"
  from step_allocations [OF st nl, of xs rs1]
  consider (same) "chunkHandle m1 = ?k" "allocations (x # xs) (r # rs1) = allocations xs rs1"
    | (succ) pi where "chunkHandle m1 = ?k + 1"
        "allocations (x # xs) (r # rs1) = (?k, pi) # allocations xs rs1"
    by blast
  then show ?case
  proof cases
    case same
    from Cons.prems(3) same have "unat (chunkHandle m1) + length xs < 2 ^ 64" by simp
    from Cons.IH [OF rn nls this] same rs show ?thesis by simp
  next
    case succ
    have un: "unat ?k \<le> unat ?k" by simp
    from Cons.prems(3) have b: "Suc (unat ?k) < 2 ^ 64" by simp
    note s = counter_succ [OF un b]
    from Cons.prems(3) succ s(1) have "unat (chunkHandle m1) + length xs < 2 ^ 64" by simp
    from Cons.IH [OF rn nls this] succ(1)
    have ih: "sorted_wrt (<) (map fst (allocations xs rs1))"
      "\<And>h. h \<in> set (map fst (allocations xs rs1)) \<Longrightarrow> ?k + 1 \<le> h \<and> h < chunkHandle m'"
      "?k + 1 \<le> chunkHandle m'"
      "unat (chunkHandle m') \<le> unat (?k + 1) + length xs"
      by auto
    have lt: "\<And>h. ?k + 1 \<le> h \<Longrightarrow> ?k < h" using s(2) by simp
    have "sorted_wrt (<) (?k # map fst (allocations xs rs1))"
      using ih(1,2) lt by auto
    moreover have "?k < chunkHandle m'" using ih(3) lt by simp
    moreover have "\<And>h. h \<in> set (map fst (allocations xs rs1)) \<Longrightarrow> ?k \<le> h \<and> h < chunkHandle m'"
      using ih(2) lt by force
    moreover have "unat (chunkHandle m') \<le> unat ?k + length (x # xs)"
      using ih(4) s(1) by simp
    ultimately show ?thesis using succ(2) rs by auto
  qed
qed

text \<open>
  C1.  Take any run of registry calls on a new registry and an empty file system
  (so \<open>Load\<close> reads only snapshots that \<open>Store\<close> wrote), with a faithful gob codec.
  After the run, and after every prefix of it, which is after every operation,
  the handle counter is greater than every handle of the inverse map and of the
  chunk records.  If the run has no \<open>Load\<close>, the handles returned by its
  successful \<open>AddChunk\<close> calls are strictly increasing in the order of the calls,
  hence pairwise different, and all below the counter.  The bound on the length
  says that the 64-bit counter has not wrapped: each call adds at most one to it,
  and each allocation leaves entries in the maps for good, so no run of the
  program gets there.
\<close>

theorem AddChunk_handles_increase:
  assumes "gob_faithful env"
    and "run env ops (NewChunkManager servers, Map.empty) = Inr (rs, m, fs)"
    and "length ops < 2 ^ 64"
  shows "(\<forall>h pi. handles m h = Some pi \<longrightarrow> h < chunkHandle m)
       \<and> (\<forall>p cm i r. chunks m p = Some cm \<longrightarrow> cm i = Some r \<longrightarrow> ChunkHandle r < chunkHandle m)
       \<and> (\<not> list_ex is_Load ops \<longrightarrow>
            sorted_wrt (<) (map fst (allocations ops rs))
            \<and> distinct (map fst (allocations ops rs))
            \<and> (\<forall>h \<in> set (map fst (allocations ops rs)). h < chunkHandle m))
       \<and> (\<forall>ops1 ops2. ops = ops1 @ ops2 \<longrightarrow>
            (\<exists>rs1 m1 fs1. run env ops1 (NewChunkManager servers, Map.empty) = Inr (rs1, m1, fs1)
               \<and> (\<forall>h pi. handles m1 h = Some pi \<longrightarrow> h < chunkHandle m1)
               \<and> (\<forall>p cm i r. chunks m1 p = Some cm \<longrightarrow> cm i = Some r \<longrightarrow>
                      ChunkHandle r < chunkHandle m1)))"
proof -
  from run_counter_above [OF assms(1,2) NewChunkManager_counter_above snapshots_ok_empty] assms(3)
  have "counter_above (0 + length ops) (chunkHandle m) (chunks m) (handles m)" by simp
  then have 1: "\<forall>h pi. handles m h = Some pi \<longrightarrow> h < chunkHandle m"
    and 2: "\<forall>p cm i r. chunks m p = Some cm \<longrightarrow> cm i = Some r \<longrightarrow> ChunkHandle r < chunkHandle m"
    unfolding counter_above_def by blast+
  have 3: "sorted_wrt (<) (map fst (allocations ops rs))
            \<and> distinct (map fst (allocations ops rs))
            \<and> (\<forall>h \<in> set (map fst (allocations ops rs)). h < chunkHandle m)"
    if nl: "\<not> list_ex is_Load ops"
  proof -
    have "unat (chunkHandle (NewChunkManager servers)) + length ops < 2 ^ 64"
      using assms(3) by (simp add: NewChunkManager_def)
    from run_allocations_sorted [OF assms(2) nl this]
    have s: "sorted_wrt (<) (map fst (allocations ops rs))"
      and b: "\<forall>h \<in> set (map fst (allocations ops rs)). h < chunkHandle m"
      by simp_all
    from s have "distinct (map fst (allocations ops rs))"
      by (simp add: strict_sorted_iff)
    with s b show ?thesis by simp
  qed
  have 4: "\<exists>rs1 m1 fs1. run env ops1 (NewChunkManager servers, Map.empty) = Inr (rs1, m1, fs1)
               \<and> (\<forall>h pi. handles m1 h = Some pi \<longrightarrow> h < chunkHandle m1)
               \<and> (\<forall>p cm i r. chunks m1 p = Some cm \<longrightarrow> cm i = Some r \<longrightarrow>
                      ChunkHandle r < chunkHandle m1)"
    if ops: "ops = ops1 @ ops2" for ops1 ops2
  proof -
    from assms(2) ops obtain rs1 m1 fs1 where
      r1: "run env ops1 (NewChunkManager servers, Map.empty) = Inr (rs1, m1, fs1)"
      by (auto simp: run_append split: sum.splits prod.splits)
    from assms(3) ops have "0 + length ops1 < 2 ^ 64" by simp
    from run_counter_above [OF assms(1) r1 NewChunkManager_counter_above snapshots_ok_empty this]
    have "counter_above (0 + length ops1) (chunkHandle m1) (chunks m1) (handles m1)" by simp
    then have "(\<forall>h pi. handles m1 h = Some pi \<longrightarrow> h < chunkHandle m1)
               \<and> (\<forall>p cm i r. chunks m1 p = Some cm \<longrightarrow> cm i = Some r \<longrightarrow>
                      ChunkHandle r < chunkHandle m1)"
      unfolding counter_above_def by blast
    with r1 show ?thesis by blast
  qed
  from 1 2 3 4 show ?thesis by blast
qed

theorem AddChunk_handles_increase_witness:
  "gob_faithful \<lparr>gob_Encode = Some, gob_Decode = Some, writable = UNIV\<rparr>
   \<and> length [AddChunk_op ''/f'' 0 [0, 1, 2], AddChunk_op ''/f'' 1 [2, 1, 0],
         AddChunk_op ''/f'' 0 [0, 1, 2], Store_op ''s''] < 2 ^ 64
   \<and> \<not> list_ex is_Load [AddChunk_op ''/f'' 0 [0, 1, 2], AddChunk_op ''/f'' 1 [2, 1, 0],
         AddChunk_op ''/f'' 0 [0, 1, 2], Store_op ''s'']
   \<and> (\<exists>rs m fs.
        run \<lparr>gob_Encode = Some, gob_Decode = Some, writable = UNIV\<rparr>
          [AddChunk_op ''/f'' 0 [0, 1, 2], AddChunk_op ''/f'' 1 [2, 1, 0],
           AddChunk_op ''/f'' 0 [0, 1, 2], Store_op ''s'']
          (NewChunkManager [''A'', ''B'', ''C''], Map.empty) = Inr (rs, m, fs)
        \<and> rs = [Info_reply (Inr \<lparr>Handle = 0, Locations = [''A'', ''B'', ''C'']\<rparr>),
                Info_reply (Inr \<lparr>Handle = 1, Locations = [''C'', ''B'', ''A'']\<rparr>),
                Info_reply (Inl ChunkIndexAlreadyExists), No_reply]
        \<and> handles m 1 = Some \<lparr>Path = ''/f'', Index = 1\<rparr>
        \<and> 1 < chunkHandle m
        \<and> chunks m ''/f'' = Some [0 \<mapsto> \<lparr>ChunkHandle = 0\<rparr>, 1 \<mapsto> \<lparr>ChunkHandle = 1\<rparr>]
        \<and> ChunkHandle \<lparr>ChunkHandle = 1\<rparr> < chunkHandle m
        \<and> sorted_wrt (<) (map fst (allocations
             [AddChunk_op ''/f'' 0 [0, 1, 2], AddChunk_op ''/f'' 1 [2, 1, 0],
              AddChunk_op ''/f'' 0 [0, 1, 2], Store_op ''s''] rs))
        \<and> distinct (map fst (allocations
             [AddChunk_op ''/f'' 0 [0, 1, 2], AddChunk_op ''/f'' 1 [2, 1, 0],
              AddChunk_op ''/f'' 0 [0, 1, 2], Store_op ''s''] rs))
        \<and> map fst (allocations
             [AddChunk_op ''/f'' 0 [0, 1, 2], AddChunk_op ''/f'' 1 [2, 1, 0],
              AddChunk_op ''/f'' 0 [0, 1, 2], Store_op ''s''] rs) = [0, 1])
   \<and> [AddChunk_op ''/f'' 0 [0, 1, 2], AddChunk_op ''/f'' 1 [2, 1, 0],
         AddChunk_op ''/f'' 0 [0, 1, 2], Store_op ''s'']
       = [AddChunk_op ''/f'' 0 [0, 1, 2]]
         @ [AddChunk_op ''/f'' 1 [2, 1, 0], AddChunk_op ''/f'' 0 [0, 1, 2], Store_op ''s'']
   \<and> (\<exists>rs1 m1 fs1.
        run \<lparr>gob_Encode = Some, gob_Decode = Some, writable = UNIV\<rparr>
          [AddChunk_op ''/f'' 0 [0, 1, 2]]
          (NewChunkManager [''A'', ''B'', ''C''], Map.empty) = Inr (rs1, m1, fs1)
        \<and> handles m1 0 = Some \<lparr>Path = ''/f'', Index = 0\<rparr>
        \<and> 0 < chunkHandle m1)"
proof -
  let ?env = "\<lparr>gob_Encode = Some, gob_Decode = Some, writable = UNIV\<rparr>
                :: persistentData disk_env"
  let ?ops = "[AddChunk_op ''/f'' 0 [0, 1, 2], AddChunk_op ''/f'' 1 [2, 1, 0],
               AddChunk_op ''/f'' 0 [0, 1, 2], Store_op ''s'']"
  let ?rs = "[Info_reply (Inr \<lparr>Handle = 0, Locations = [''A'', ''B'', ''C'']\<rparr>),
              Info_reply (Inr \<lparr>Handle = 1, Locations = [''C'', ''B'', ''A'']\<rparr>),
              Info_reply (Inl ChunkIndexAlreadyExists), No_reply]"
  let ?cm = "[(0::uint64) \<mapsto> \<lparr>ChunkHandle = 0\<rparr>, 1 \<mapsto> \<lparr>ChunkHandle = 1\<rparr>]"
  let ?hs = "[(0::uint64) \<mapsto> \<lparr>Path = ''/f'', Index = 0\<rparr>, 1 \<mapsto> \<lparr>Path = ''/f'', Index = 1\<rparr>]"
  let ?m = "\<lparr>chunkHandle = 2, chunks = [''/f'' \<mapsto> ?cm], handles = ?hs,
             locations = [0 \<mapsto> \<lparr>Handle = 0, Locations = [''A'', ''B'', ''C'']\<rparr>,
                          1 \<mapsto> \<lparr>Handle = 1, Locations = [''C'', ''B'', ''A'']\<rparr>],
             chunkServers = [''A'', ''B'', ''C'']\<rparr>"
  let ?fs = "[''s'' \<mapsto> \<lparr>Handle_pd = 2, Chunks_pd = Some [''/f'' \<mapsto> ?cm],
                Handles_pd = Some ?hs\<rparr>]"
  have f: "gob_faithful ?env" by (simp add: gob_faithful_def)
  have l: "length ?ops < 2 ^ 64" by simp
  have n: "\<not> list_ex is_Load ?ops" by simp
  have r: "run ?env ?ops (NewChunkManager [''A'', ''B'', ''C''], Map.empty) = Inr (?rs, ?m, ?fs)"
    by (simp add: AddChunk_def addChunk_def NewChunkManager_def random_strs_def
        random_loop.simps numeral_3_eq_3 Let_def Store_def)
  note t = AddChunk_handles_increase [OF f r l]
  note t1 = t [THEN conjunct1, rule_format]
  note t2 = t [THEN conjunct2, THEN conjunct1, rule_format]
  note t3 = t [THEN conjunct2, THEN conjunct2, THEN conjunct1, rule_format, OF n]
  note t4 = t [THEN conjunct2, THEN conjunct2, THEN conjunct2, rule_format]
  have h1: "handles ?m 1 = Some \<lparr>Path = ''/f'', Index = 1\<rparr>" by simp
  have c1: "chunks ?m ''/f'' = Some ?cm" by simp
  have c2: "?cm 1 = Some \<lparr>ChunkHandle = 1\<rparr>" by simp
  from t1 [OF h1] have a0: "1 < chunkHandle ?m" .
  from t2 [OF c1 c2] have b: "ChunkHandle \<lparr>ChunkHandle = 1\<rparr> < chunkHandle ?m" .
  from t3 have s: "sorted_wrt (<) (map fst (allocations ?ops ?rs))"
    and d: "distinct (map fst (allocations ?ops ?rs))"
    and bd: "\<forall>h \<in> set (map fst (allocations ?ops ?rs)). h < chunkHandle ?m"
    by (rule conjunct1, rule conjunct2 [THEN conjunct1], rule conjunct2 [THEN conjunct2])
  have e: "map fst (allocations ?ops ?rs) = [0, 1]" by simp
  from bd e have a: "1 < chunkHandle ?m" by simp
  have "\<exists>rs m fs. run ?env ?ops (NewChunkManager [''A'', ''B'', ''C''], Map.empty) = Inr (rs, m, fs)
        \<and> rs = ?rs
        \<and> handles m 1 = Some \<lparr>Path = ''/f'', Index = 1\<rparr>
        \<and> 1 < chunkHandle m
        \<and> chunks m ''/f'' = Some ?cm
        \<and> ChunkHandle \<lparr>ChunkHandle = 1\<rparr> < chunkHandle m
        \<and> sorted_wrt (<) (map fst (allocations ?ops rs))
        \<and> distinct (map fst (allocations ?ops rs))
        \<and> map fst (allocations ?ops rs) = [0, 1]"
    by (rule exI [of _ ?rs], rule exI [of _ ?m], rule exI [of _ ?fs])
      (intro conjI r h1 a c1 b s d e refl)
  note whole = this
  let ?ops1 = "[AddChunk_op ''/f'' 0 [0, 1, 2]]"
  let ?ops2 = "[AddChunk_op ''/f'' 1 [2, 1, 0], AddChunk_op ''/f'' 0 [0, 1, 2], Store_op ''s'']"
  let ?s0 = "(NewChunkManager [''A'', ''B'', ''C''], Map.empty :: string \<rightharpoonup> persistentData)"
  have sp: "?ops = ?ops1 @ ?ops2" by simp
  from t4 [OF sp] obtain rs1 m1 fs1 where
    r1: "run ?env ?ops1 ?s0 = Inr (rs1, m1, fs1)"
    and i1: "\<forall>h pi. handles m1 h = Some pi \<longrightarrow> h < chunkHandle m1"
    by (elim exE conjE)
  have r1': "run ?env ?ops1 ?s0
      = Inr ([Info_reply (Inr \<lparr>Handle = 0, Locations = [''A'', ''B'', ''C'']\<rparr>)],
             \<lparr>chunkHandle = 1, chunks = [''/f'' \<mapsto> [0 \<mapsto> \<lparr>ChunkHandle = 0\<rparr>]],
              handles = [0 \<mapsto> \<lparr>Path = ''/f'', Index = 0\<rparr>],
              locations = [0 \<mapsto> \<lparr>Handle = 0, Locations = [''A'', ''B'', ''C'']\<rparr>],
              chunkServers = [''A'', ''B'', ''C'']\<rparr>, Map.empty)"
    by (simp add: AddChunk_def addChunk_def NewChunkManager_def random_strs_def
        random_loop.simps numeral_3_eq_3 Let_def)
  from r1 have "m1 = \<lparr>chunkHandle = 1, chunks = [''/f'' \<mapsto> [0 \<mapsto> \<lparr>ChunkHandle = 0\<rparr>]],
              handles = [0 \<mapsto> \<lparr>Path = ''/f'', Index = 0\<rparr>],
              locations = [0 \<mapsto> \<lparr>Handle = 0, Locations = [''A'', ''B'', ''C'']\<rparr>],
              chunkServers = [''A'', ''B'', ''C'']\<rparr>"
    unfolding r1' by simp
  then have h0: "handles m1 0 = Some \<lparr>Path = ''/f'', Index = 0\<rparr>" by simp
  from i1 [rule_format, OF h0] have lt0: "0 < chunkHandle m1" .
  have "\<exists>rs1 m1 fs1. run ?env ?ops1 ?s0 = Inr (rs1, m1, fs1)
        \<and> handles m1 0 = Some \<lparr>Path = ''/f'', Index = 0\<rparr>
        \<and> 0 < chunkHandle m1"
    by (rule exI [of _ rs1], rule exI [of _ m1], rule exI [of _ fs1]) (intro conjI r1 h0 lt0)
  with f l n whole sp show ?thesis by (intro conjI)
qed

section \<open>Locations of the records that a run made\<close>

lemma records_located_mono:
  "records_located L k c h \<Longrightarrow> L \<subseteq> L' \<Longrightarrow> records_located L' k' c h'"
  unfolding records_located_def by blast

lemma records_located_addChunk:
  assumes "records_located (dom (locations m)) (chunkHandle m) (chunks m) (handles m)"
    and "addChunk m p i perm = Inr (Inr info, m')"
  shows "records_located (dom (locations m')) (chunkHandle m') (chunks m') (handles m')"
    and "dom (locations m') = insert (chunkHandle m) (dom (locations m))"
proof -
  let ?k = "chunkHandle m"
  note a = addChunk_success [OF assms(2)]
  have l': "locations m' = (locations m)(?k \<mapsto> info)" by (subst a(3)) simp
  have c': "chunks m' = (chunks m)(p \<mapsto>
                   (case chunks m p of None \<Rightarrow> Map.empty | Some cm \<Rightarrow> cm)
                     (i \<mapsto> \<lparr>ChunkHandle = ?k\<rparr>))"
    by (subst a(3)) simp
  show d: "dom (locations m') = insert ?k (dom (locations m))"
    unfolding l' by simp
  have "\<And>q cm j r. chunks m' q = Some cm \<Longrightarrow> cm j = Some r
          \<Longrightarrow> ChunkHandle r \<in> dom (locations m')"
  proof -
    fix q cm j r
    assume q: "chunks m' q = Some cm" and j: "cm j = Some r"
    show "ChunkHandle r \<in> dom (locations m')"
    proof (cases "q = p \<and> j = i")
      case True
      with q j c' have "ChunkHandle r = ?k" by auto
      with d show ?thesis by simp
    next
      case False
      with q j c' have "\<exists>cm0. chunks m q = Some cm0 \<and> cm0 j = Some r"
        by (auto split: if_splits option.splits)
      with assms(1) have "ChunkHandle r \<in> dom (locations m)"
        unfolding records_located_def by blast
      with d show ?thesis by simp
    qed
  qed
  then show "records_located (dom (locations m')) (chunkHandle m') (chunks m') (handles m')"
    unfolding records_located_def by blast
qed

lemma step_records_located:
  assumes "gob_faithful env"
    and "records_located (dom (locations m)) (chunkHandle m) (chunks m) (handles m)"
    and "snapshots_ok env (records_located (dom (locations m))) fs"
    and "step env x (m, fs) = Inr (r, m', fs')"
  shows "records_located (dom (locations m')) (chunkHandle m') (chunks m') (handles m')
       \<and> snapshots_ok env (records_located (dom (locations m'))) fs'"
  using assms(4)
proof (cases rule: step_cases)
  case (added p i perm info)
  note a = records_located_addChunk [OF assms(2) added(3)]
  have "snapshots_ok env (records_located (dom (locations m'))) fs"
    using assms(3)
    by (rule snapshots_ok_mono) (erule records_located_mono, simp add: a(2) subset_insertI)
  with a(1) added show ?thesis by simp
next
  case (conflict p i perm e)
  with assms(2,3) show ?thesis by simp
next
  case (find p i)
  with assms(2,3) show ?thesis by simp
next
  case (get h)
  with assms(2,3) show ?thesis by simp
next
  case (setloc h a)
  have m: "records_located (dom (locations m')) (chunkHandle m') (chunks m') (handles m')"
    using assms(2) unfolding setloc(2) SetChunkLocation_durable
    by (rule records_located_mono) (rule subset_insertI)
  have "snapshots_ok env (records_located (dom (locations m'))) fs"
    using assms(3) unfolding setloc(2) SetChunkLocation_durable(5)
    by (rule snapshots_ok_mono) (erule records_located_mono, rule subset_insertI)
  with m setloc show ?thesis by simp
next
  case (store path)
  with assms(2) snapshots_ok_Store [OF assms(1,3,2)] show ?thesis by simp
next
  case (load path)
  from snapshots_ok_Load [OF assms(3) load(2)] assms(3) load show ?thesis by simp
qed

lemma run_records_located:
  assumes "gob_faithful env"
  shows "run env ops (m, fs) = Inr (rs, m', fs') \<Longrightarrow>
     records_located (dom (locations m)) (chunkHandle m) (chunks m) (handles m) \<Longrightarrow>
     snapshots_ok env (records_located (dom (locations m))) fs \<Longrightarrow>
     records_located (dom (locations m')) (chunkHandle m') (chunks m') (handles m')"
proof (induction ops arbitrary: m fs rs)
  case Nil
  then show ?case by simp
next
  case (Cons x xs)
  from Cons.prems(1) obtain r m1 fs1 rs1 where
    st: "step env x (m, fs) = Inr (r, m1, fs1)"
    and rn: "run env xs (m1, fs1) = Inr (rs1, m', fs')"
    by (auto split: sum.splits prod.splits)
  from step_records_located [OF assms Cons.prems(2,3) st]
  have "records_located (dom (locations m1)) (chunkHandle m1) (chunks m1) (handles m1)"
    and "snapshots_ok env (records_located (dom (locations m1))) fs1" by simp_all
  from Cons.IH [OF rn this] show ?case .
qed

text \<open>
  C6 (as amended).  After any run of registry calls on a new registry and an
  empty file system (so every snapshot that \<open>Load\<close> reads was stored by this same
  registry), with a faithful gob codec, every pair with a record in the chunk map
  has a location entry, and \<open>FindLocations\<close> returns it; it does not fail with
  "Locations not available.".
\<close>

theorem FindLocations_after_run:
  assumes "gob_faithful env"
    and "run env ops (NewChunkManager servers, Map.empty) = Inr (rs, m, fs)"
    and "chunks m p = Some cm" and "cm i = Some r"
  shows "FindLocations m p i \<noteq> Inl LocationsNotAvailable
       \<and> (\<exists>info. locations m (ChunkHandle r) = Some info \<and> FindLocations m p i = Inr info)"
proof -
  have "records_located (dom (locations (NewChunkManager servers)))
          (chunkHandle (NewChunkManager servers)) (chunks (NewChunkManager servers))
          (handles (NewChunkManager servers))"
    by (simp add: records_located_def NewChunkManager_def)
  from run_records_located [OF assms(1,2) this snapshots_ok_empty]
  have "ChunkHandle r \<in> dom (locations m)"
    using assms(3,4) unfolding records_located_def by blast
  then obtain info where "locations m (ChunkHandle r) = Some info" by blast
  with assms(3,4) show ?thesis
    by (simp add: FindLocations_def getChunkInfo_def)
qed

theorem FindLocations_after_run_witness:
  "gob_faithful \<lparr>gob_Encode = Some, gob_Decode = Some, writable = UNIV\<rparr>
   \<and> (\<exists>rs m fs.
        run \<lparr>gob_Encode = Some, gob_Decode = Some, writable = UNIV\<rparr>
          [AddChunk_op ''/f'' 0 [0, 1, 2], Store_op ''s'', AddChunk_op ''/f'' 1 [2, 1, 0],
           Load_op ''s'']
          (NewChunkManager [''A'', ''B'', ''C''], Map.empty) = Inr (rs, m, fs)
        \<and> chunks m ''/f'' = Some [0 \<mapsto> \<lparr>ChunkHandle = 0\<rparr>]
        \<and> FindLocations m ''/f'' 0 \<noteq> Inl LocationsNotAvailable
        \<and> FindLocations m ''/f'' 0 = Inr \<lparr>Handle = 0, Locations = [''A'', ''B'', ''C'']\<rparr>)"
proof -
  let ?env = "\<lparr>gob_Encode = Some, gob_Decode = Some, writable = UNIV\<rparr>
                :: persistentData disk_env"
  let ?ops = "[AddChunk_op ''/f'' 0 [0, 1, 2], Store_op ''s'', AddChunk_op ''/f'' 1 [2, 1, 0],
               Load_op ''s'']"
  let ?rs = "[Info_reply (Inr \<lparr>Handle = 0, Locations = [''A'', ''B'', ''C'']\<rparr>), No_reply,
              Info_reply (Inr \<lparr>Handle = 1, Locations = [''C'', ''B'', ''A'']\<rparr>), No_reply]"
  let ?cm = "[(0::uint64) \<mapsto> \<lparr>ChunkHandle = 0\<rparr>]"
  let ?hs = "[(0::uint64) \<mapsto> \<lparr>Path = ''/f'', Index = 0\<rparr>]"
  let ?m = "\<lparr>chunkHandle = 1, chunks = [''/f'' \<mapsto> ?cm], handles = ?hs,
             locations = [0 \<mapsto> \<lparr>Handle = 0, Locations = [''A'', ''B'', ''C'']\<rparr>,
                          1 \<mapsto> \<lparr>Handle = 1, Locations = [''C'', ''B'', ''A'']\<rparr>],
             chunkServers = [''A'', ''B'', ''C'']\<rparr>"
  let ?fs = "[''s'' \<mapsto> \<lparr>Handle_pd = 1, Chunks_pd = Some [''/f'' \<mapsto> ?cm],
                Handles_pd = Some ?hs\<rparr>]"
  have f: "gob_faithful ?env" by (simp add: gob_faithful_def)
  have r: "run ?env ?ops (NewChunkManager [''A'', ''B'', ''C''], Map.empty) = Inr (?rs, ?m, ?fs)"
    by (simp add: AddChunk_def addChunk_def NewChunkManager_def random_strs_def
        random_loop.simps numeral_3_eq_3 Let_def Store_def Load_def)
  have c1: "chunks ?m ''/f'' = Some ?cm" by simp
  have c2: "?cm 0 = Some \<lparr>ChunkHandle = 0\<rparr>" by simp
  from FindLocations_after_run [OF f r c1 c2]
  have a: "FindLocations ?m ''/f'' 0 \<noteq> Inl LocationsNotAvailable"
    and "\<exists>info. locations ?m (ChunkHandle \<lparr>ChunkHandle = 0\<rparr>) = Some info
            \<and> FindLocations ?m ''/f'' 0 = Inr info"
    by blast+
  then have b: "FindLocations ?m ''/f'' 0 = Inr \<lparr>Handle = 0, Locations = [''A'', ''B'', ''C'']\<rparr>"
    by auto
  have "\<exists>rs m fs. run ?env ?ops (NewChunkManager [''A'', ''B'', ''C''], Map.empty) = Inr (rs, m, fs)
        \<and> chunks m ''/f'' = Some ?cm
        \<and> FindLocations m ''/f'' 0 \<noteq> Inl LocationsNotAvailable
        \<and> FindLocations m ''/f'' 0 = Inr \<lparr>Handle = 0, Locations = [''A'', ''B'', ''C'']\<rparr>"
    by (rule exI [of _ ?rs], rule exI [of _ ?m], rule exI [of _ ?fs])
      (intro conjI r c1 a b)
  with f show ?thesis by (intro conjI)
qed

text \<open>
  The location map is in memory only and \<open>Load\<close> does not write it: a registry
  stores a snapshot with the record of \<open>(/f, 0)\<close>; a new registry that loads the
  snapshot has the record and no location entry, and \<open>FindLocations\<close> fails with
  "Locations not available.".
\<close>

theorem FindLocations_after_run_counterexample:
  "run \<lparr>gob_Encode = Some, gob_Decode = Some, writable = UNIV\<rparr>
     [AddChunk_op ''/f'' 0 [0, 1, 2], Store_op ''s'']
     (NewChunkManager [''A'', ''B'', ''C''], Map.empty)
   = Inr ([Info_reply (Inr \<lparr>Handle = 0, Locations = [''A'', ''B'', ''C'']\<rparr>), No_reply],
          \<lparr>chunkHandle = 1, chunks = [''/f'' \<mapsto> [0 \<mapsto> \<lparr>ChunkHandle = 0\<rparr>]],
           handles = [0 \<mapsto> \<lparr>Path = ''/f'', Index = 0\<rparr>],
           locations = [0 \<mapsto> \<lparr>Handle = 0, Locations = [''A'', ''B'', ''C'']\<rparr>],
           chunkServers = [''A'', ''B'', ''C'']\<rparr>,
          [''s'' \<mapsto> \<lparr>Handle_pd = 1,
             Chunks_pd = Some [''/f'' \<mapsto> [0 \<mapsto> \<lparr>ChunkHandle = 0\<rparr>]],
             Handles_pd = Some [0 \<mapsto> \<lparr>Path = ''/f'', Index = 0\<rparr>]\<rparr>])
   \<and> run \<lparr>gob_Encode = Some, gob_Decode = Some, writable = UNIV\<rparr>
       [Load_op ''s'', FindLocations_op ''/f'' 0]
       (NewChunkManager [''A'', ''B'', ''C''],
        [''s'' \<mapsto> \<lparr>Handle_pd = 1,
             Chunks_pd = Some [''/f'' \<mapsto> [0 \<mapsto> \<lparr>ChunkHandle = 0\<rparr>]],
             Handles_pd = Some [0 \<mapsto> \<lparr>Path = ''/f'', Index = 0\<rparr>]\<rparr>])
   = Inr ([No_reply, Info_reply (Inl LocationsNotAvailable)],
          \<lparr>chunkHandle = 1, chunks = [''/f'' \<mapsto> [0 \<mapsto> \<lparr>ChunkHandle = 0\<rparr>]],
           handles = [0 \<mapsto> \<lparr>Path = ''/f'', Index = 0\<rparr>],
           locations = Map.empty,
           chunkServers = [''A'', ''B'', ''C'']\<rparr>,
          [''s'' \<mapsto> \<lparr>Handle_pd = 1,
             Chunks_pd = Some [''/f'' \<mapsto> [0 \<mapsto> \<lparr>ChunkHandle = 0\<rparr>]],
             Handles_pd = Some [0 \<mapsto> \<lparr>Path = ''/f'', Index = 0\<rparr>]\<rparr>])"
  by (simp add: AddChunk_def addChunk_def NewChunkManager_def random_strs_def
      random_loop.simps numeral_3_eq_3 Let_def Store_def Load_def FindLocations_def
      getChunkInfo_def)

section \<open>Location lists without duplicates\<close>

lemma random_strs_distinct:
  assumes "random_strs array 3 perm = Inr locs" and "Perm_ok (length array) perm"
    and "distinct array"
  shows "distinct locs"
proof (cases "3 \<le> length array")
  case True
  from assms(2) have dp: "distinct perm"
    and bp: "list_all (\<lambda>k. k < length array) perm"
    by (simp_all add: Perm_ok_def)
  have in_range: "\<And>k. k \<in> set (take 3 perm) \<Longrightarrow> k < length array"
    using bp by (auto simp: list_all_iff dest: in_set_takeD)
  from random_strs_ok [OF assms(2) True] assms(1)
  have "locs = map ((!) array) (take 3 perm)" by simp
  moreover have "distinct (map ((!) array) (take 3 perm))"
    using dp in_range assms(3)
    by (auto simp: distinct_map inj_on_def nth_eq_iff_index_eq)
  ultimately show ?thesis by simp
next
  case False
  then have "length array < 3" by simp
  from random_strs_short [OF assms(2) this] assms(1) show ?thesis by simp
qed

lemma step_locations_distinct:
  assumes "distinct (chunkServers m)"
    and "perm_of_op_ok (length (chunkServers m)) x"
    and "\<forall>h info. locations m h = Some info \<longrightarrow> distinct (Locations info)"
    and "step env x (m, fs) = Inr (r, m', fs')"
  shows "chunkServers m' = chunkServers m
       \<and> (\<forall>h info. locations m' h = Some info \<longrightarrow> distinct (Locations info))"
  using assms(4)
proof (cases rule: step_cases)
  case (added p i perm info)
  note a = addChunk_success [OF added(3)]
  have l': "locations m' = (locations m)(chunkHandle m \<mapsto> info)" by (subst a(3)) simp
  have s': "chunkServers m' = chunkServers m" by (subst a(3)) simp
  from assms(2) added(1) have "Perm_ok (length (chunkServers m)) perm" by simp
  from random_strs_distinct [OF a(2) this assms(1)]
  have "distinct (Locations info)" .
  with assms(3) l' s' show ?thesis by auto
next
  case (conflict p i perm e)
  with assms(3) show ?thesis by simp
next
  case (find p i)
  with assms(3) show ?thesis by simp
next
  case (get h)
  with assms(3) show ?thesis by simp
next
  case (setloc h a)
  with assms(3) show ?thesis
    by (auto simp: SetChunkLocation_def Let_def insert_str_eq split: option.splits if_splits)
next
  case (store path)
  with assms(3) show ?thesis by simp
next
  case (load path)
  from snapshots_ok_Load(2,3) [OF _ load(2), of "\<lambda>k c h. True"] assms(3)
  show ?thesis by (simp add: snapshots_ok_def)
qed

lemma run_locations_distinct:
  "run env ops (m, fs) = Inr (rs, m', fs') \<Longrightarrow>
   distinct (chunkServers m) \<Longrightarrow>
   list_all (perm_of_op_ok (length (chunkServers m))) ops \<Longrightarrow>
   \<forall>h info. locations m h = Some info \<longrightarrow> distinct (Locations info) \<Longrightarrow>
     \<forall>h info. locations m' h = Some info \<longrightarrow> distinct (Locations info)"
proof (induction ops arbitrary: m fs rs)
  case Nil
  then show ?case by simp
next
  case (Cons x xs)
  from Cons.prems(1) obtain r m1 fs1 rs1 where
    st: "step env x (m, fs) = Inr (r, m1, fs1)"
    and rn: "run env xs (m1, fs1) = Inr (rs1, m', fs')"
    by (auto split: sum.splits prod.splits)
  from Cons.prems(3) have px: "perm_of_op_ok (length (chunkServers m)) x"
    and pxs: "list_all (perm_of_op_ok (length (chunkServers m))) xs" by simp_all
  from step_locations_distinct [OF Cons.prems(2) px Cons.prems(4) st]
  have s: "chunkServers m1 = chunkServers m"
    and d: "\<forall>h info. locations m1 h = Some info \<longrightarrow> distinct (Locations info)"
    by simp_all
  from Cons.IH [OF rn] Cons.prems(2) pxs d s show ?case by simp
qed

lemma SetChunkLocation_present:
  assumes "locations m h = Some info" and "a \<in> set (Locations info)"
  shows "SetChunkLocation m h a = (None, m)"
proof -
  have "(locations m)(h \<mapsto> info) = locations m"
    using assms(1) by (simp add: map_upd_triv)
  with assms show ?thesis
    by (simp add: SetChunkLocation_def Let_def insert_str_eq)
qed

lemma SetChunkLocation_twice:
  "SetChunkLocation (snd (SetChunkLocation m h a)) h a = SetChunkLocation m h a"
proof -
  let ?m' = "snd (SetChunkLocation m h a)"
  obtain info where i: "locations ?m' h = Some info" and a: "a \<in> set (Locations info)"
    by (auto simp: SetChunkLocation_def Let_def insert_str_eq split: option.splits)
  from SetChunkLocation_present [OF i a] have "SetChunkLocation ?m' h a = (None, ?m')" .
  moreover have "SetChunkLocation m h a = (None, ?m')"
    by (simp add: SetChunkLocation_def Let_def)
  ultimately show ?thesis by simp
qed

text \<open>
  C9 (as amended).  When the registered chunkserver list has no duplicates, then
  after any run of registry calls on a new registry (\<open>AddChunk\<close> and
  \<open>SetChunkLocation\<close> among them, each \<open>AddChunk\<close> with a permutation from
  \<open>rand.Perm\<close>) every location list of the registry is duplicate-free.
  \<open>SetChunkLocation\<close> with an address that the handle's list already holds returns
  the registry as it was, and calling it a second time with the same arguments
  changes nothing.
\<close>

theorem locations_duplicate_free:
  assumes "distinct servers"
    and "list_all (perm_of_op_ok (length servers)) ops"
    and "run env ops (NewChunkManager servers, fs0) = Inr (rs, m, fs)"
  shows "(\<forall>h info. locations m h = Some info \<longrightarrow> distinct (Locations info))
       \<and> (\<forall>h info a. locations m h = Some info \<longrightarrow> a \<in> set (Locations info) \<longrightarrow>
             SetChunkLocation m h a = (None, m))
       \<and> (\<forall>h a. SetChunkLocation (snd (SetChunkLocation m h a)) h a = SetChunkLocation m h a)"
proof -
  have "\<forall>h info. locations m h = Some info \<longrightarrow> distinct (Locations info)"
    using run_locations_distinct [OF assms(3)] assms(1,2)
    by (simp add: NewChunkManager_def)
  then show ?thesis
    using SetChunkLocation_present SetChunkLocation_twice by blast
qed


theorem locations_duplicate_free_witness:
  "distinct [''A'', ''B'', ''C'']
   \<and> list_all (perm_of_op_ok (length [''A'', ''B'', ''C'']))
        [AddChunk_op ''/f'' 0 [1, 2, 0], SetChunkLocation_op 0 ''D'', SetChunkLocation_op 0 ''A'']
   \<and> (\<exists>rs m fs.
        run \<lparr>gob_Encode = Some, gob_Decode = Some, writable = UNIV\<rparr>
          [AddChunk_op ''/f'' 0 [1, 2, 0], SetChunkLocation_op 0 ''D'', SetChunkLocation_op 0 ''A'']
          (NewChunkManager [''A'', ''B'', ''C''], Map.empty) = Inr (rs, m, fs)
        \<and> locations m 0 = Some \<lparr>Handle = 0, Locations = [''B'', ''C'', ''A'', ''D'']\<rparr>
        \<and> distinct (Locations \<lparr>Handle = 0, Locations = [''B'', ''C'', ''A'', ''D'']\<rparr>)
        \<and> ''D'' \<in> set (Locations \<lparr>Handle = 0, Locations = [''B'', ''C'', ''A'', ''D'']\<rparr>)
        \<and> SetChunkLocation m 0 ''D'' = (None, m))"
proof -
  let ?env = "\<lparr>gob_Encode = Some, gob_Decode = Some, writable = UNIV\<rparr>
                :: persistentData disk_env"
  let ?ops = "[AddChunk_op ''/f'' 0 [1, 2, 0], SetChunkLocation_op 0 ''D'',
               SetChunkLocation_op 0 ''A'']"
  let ?rs = "[Info_reply (Inr \<lparr>Handle = 0, Locations = [''B'', ''C'', ''A'']\<rparr>),
              Error_reply None, Error_reply None]"
  let ?info = "\<lparr>Handle = 0, Locations = [''B'', ''C'', ''A'', ''D'']\<rparr>"
  let ?m = "\<lparr>chunkHandle = 1, chunks = [''/f'' \<mapsto> [0 \<mapsto> \<lparr>ChunkHandle = 0\<rparr>]],
             handles = [0 \<mapsto> \<lparr>Path = ''/f'', Index = 0\<rparr>],
             locations = [0 \<mapsto> ?info],
             chunkServers = [''A'', ''B'', ''C'']\<rparr>"
  have d: "distinct [''A'', ''B'', ''C'']" by simp
  have p: "list_all (perm_of_op_ok (length [''A'', ''B'', ''C''])) ?ops"
    by (simp add: Perm_ok_def)
  have r: "run ?env ?ops (NewChunkManager [''A'', ''B'', ''C''], Map.empty)
             = Inr (?rs, ?m, Map.empty)"
    by (simp add: AddChunk_def addChunk_def NewChunkManager_def random_strs_def
        random_loop.simps numeral_3_eq_3 Let_def SetChunkLocation_def insert_str_def)
  note t = locations_duplicate_free [OF d p r]
  have l: "locations ?m 0 = Some ?info" by simp
  have i: "''D'' \<in> set (Locations ?info)" by simp
  from t l have a: "distinct (Locations ?info)" by blast
  from t l i have b: "SetChunkLocation ?m 0 ''D'' = (None, ?m)" by blast
  have "\<exists>rs m fs. run ?env ?ops (NewChunkManager [''A'', ''B'', ''C''], Map.empty) = Inr (rs, m, fs)
        \<and> locations m 0 = Some ?info
        \<and> distinct (Locations ?info)
        \<and> ''D'' \<in> set (Locations ?info)
        \<and> SetChunkLocation m 0 ''D'' = (None, m)"
    by (rule exI [of _ ?rs], rule exI [of _ ?m], rule exI [of _ Map.empty])
      (intro conjI r l a i b)
  with d p show ?thesis by (intro conjI)
qed

text \<open>
  \<open>random\<close> picks distinct positions of the registered list, not distinct
  addresses: with the list \<open>[A, A, B]\<close> one \<open>AddChunk\<close> leaves the location list
  \<open>[A, A, B]\<close>.
\<close>

theorem locations_duplicate_free_counterexample:
  "list_all (perm_of_op_ok (length [''A'', ''A'', ''B''])) [AddChunk_op ''/f'' 0 [0, 1, 2]]
   \<and> run \<lparr>gob_Encode = Some, gob_Decode = Some, writable = UNIV\<rparr>
       [AddChunk_op ''/f'' 0 [0, 1, 2]]
       (NewChunkManager [''A'', ''A'', ''B''], Map.empty :: string \<rightharpoonup> persistentData)
     = Inr ([Info_reply (Inr \<lparr>Handle = 0, Locations = [''A'', ''A'', ''B'']\<rparr>)],
            \<lparr>chunkHandle = 1, chunks = [''/f'' \<mapsto> [0 \<mapsto> \<lparr>ChunkHandle = 0\<rparr>]],
             handles = [0 \<mapsto> \<lparr>Path = ''/f'', Index = 0\<rparr>],
             locations = [0 \<mapsto> \<lparr>Handle = 0, Locations = [''A'', ''A'', ''B'']\<rparr>],
             chunkServers = [''A'', ''A'', ''B'']\<rparr>,
            Map.empty)
   \<and> \<not> distinct (Locations \<lparr>Handle = 0, Locations = [''A'', ''A'', ''B'']\<rparr>)"
  by (simp add: AddChunk_def addChunk_def NewChunkManager_def random_strs_def
      random_loop.simps numeral_3_eq_3 Let_def Perm_ok_def)

section \<open>The inverse map and the allocations\<close>

lemma run_handle_kept:
  "run env ops (m, fs) = Inr (rs, m', fs') \<Longrightarrow> \<not> list_ex is_Load ops \<Longrightarrow>
   handles m h = Some pi \<Longrightarrow> h < chunkHandle m \<Longrightarrow>
   unat (chunkHandle m) + length ops < 2 ^ 64 \<Longrightarrow>
     handles m' h = Some pi \<and> h < chunkHandle m'"
proof (induction ops arbitrary: m fs rs)
  case Nil
  then show ?case by simp
next
  case (Cons x xs)
  from Cons.prems(1) obtain r m1 fs1 rs1 where
    st: "step env x (m, fs) = Inr (r, m1, fs1)"
    and rn: "run env xs (m1, fs1) = Inr (rs1, m', fs')"
    by (auto split: sum.splits prod.splits)
  from Cons.prems(2) have nl: "\<not> is_Load x" and nls: "\<not> list_ex is_Load xs" by simp_all
  let ?k = "chunkHandle m"
  from step_allocations [OF st nl, of xs rs1]
  consider (same) "chunkHandle m1 = ?k" "handles m1 = handles m"
    | (succ) pi' where "chunkHandle m1 = ?k + 1" "handles m1 = (handles m)(?k \<mapsto> pi')"
    by blast
  then show ?case
  proof cases
    case same
    with Cons.prems(3,4,5) have "handles m1 h = Some pi" "h < chunkHandle m1"
      "unat (chunkHandle m1) + length xs < 2 ^ 64" by simp_all
    from Cons.IH [OF rn nls this] show ?thesis .
  next
    case succ
    have un: "unat ?k \<le> unat ?k" by simp
    from Cons.prems(5) have b: "Suc (unat ?k) < 2 ^ 64" by simp
    note s = counter_succ [OF un b]
    from Cons.prems(4) have "h \<noteq> ?k" by auto
    with succ Cons.prems(3) have 1: "handles m1 h = Some pi" by simp
    from s(3) [OF Cons.prems(4)] succ have 2: "h < chunkHandle m1" by simp
    from Cons.prems(5) succ s(1) have 3: "unat (chunkHandle m1) + length xs < 2 ^ 64" by simp
    from Cons.IH [OF rn nls 1 2 3] show ?thesis .
  qed
qed

lemma handles_within_mono:
  "handles_within A k c h \<Longrightarrow> A \<subseteq> B \<Longrightarrow> handles_within B k' c' h"
  unfolding handles_within_def by blast

lemma run_handles_within:
  assumes "gob_faithful env"
  shows "run env ops (m, fs) = Inr (rs, m', fs') \<Longrightarrow>
     dom (handles m) \<subseteq> A \<Longrightarrow>
     snapshots_ok env (handles_within A) fs \<Longrightarrow>
       dom (handles m') \<subseteq> A \<union> fst ` set (allocations ops rs)"
proof (induction ops arbitrary: m fs rs A)
  case Nil
  then show ?case by auto
next
  case (Cons x xs)
  from Cons.prems(1) obtain r m1 fs1 rs1 where
    st: "step env x (m, fs) = Inr (r, m1, fs1)"
    and rn: "run env xs (m1, fs1) = Inr (rs1, m', fs')"
    and rs: "rs = r # rs1"
    by (auto split: sum.splits prod.splits)
  have "\<exists>B. A \<subseteq> B \<and> dom (handles m1) \<subseteq> B \<and> snapshots_ok env (handles_within B) fs1
          \<and> B \<union> fst ` set (allocations xs rs1) = A \<union> fst ` set (allocations (x # xs) (r # rs1))"
  proof (cases "is_Load x")
    case True
    then obtain path where x: "x = Load_op path" by (cases x) simp_all
    with st have l: "Load env m path fs = Inr m1" and f: "fs1 = fs"
      by (auto split: sum.splits)
    from snapshots_ok_Load(1) [OF Cons.prems(3) l] have "dom (handles m1) \<subseteq> A"
      by (simp add: handles_within_def)
    with Cons.prems(3) f x show ?thesis
      by (intro exI [of _ A]) (simp add: allocations_skip)
  next
    case False
    have fs1: "snapshots_ok env (handles_within A) fs1"
      using st
    proof (cases rule: step_cases)
      case (store path)
      have "handles_within A (chunkHandle m) (chunks m) (handles m)"
        using Cons.prems(2) by (simp add: handles_within_def)
      from snapshots_ok_Store [OF assms Cons.prems(3) this store(3)] show ?thesis .
    qed (use Cons.prems(3) in simp_all)
    from step_allocations [OF st False, of xs rs1]
    consider (same) "handles m1 = handles m"
        "allocations (x # xs) (r # rs1) = allocations xs rs1"
      | (succ) pi where "handles m1 = (handles m)(chunkHandle m \<mapsto> pi)"
        "allocations (x # xs) (r # rs1) = (chunkHandle m, pi) # allocations xs rs1"
      by blast
    then show ?thesis
    proof cases
      case same
      with Cons.prems(2) fs1 show ?thesis
        by (intro exI [of _ A]) simp
    next
      case succ
      have "snapshots_ok env (handles_within (insert (chunkHandle m) A)) fs1"
        using fs1 by (rule snapshots_ok_mono) (erule handles_within_mono, rule subset_insertI)
      with succ Cons.prems(2) show ?thesis
        by (intro exI [of _ "insert (chunkHandle m) A"]) auto
    qed
  qed
  then obtain B where B: "dom (handles m1) \<subseteq> B" "snapshots_ok env (handles_within B) fs1"
    "B \<union> fst ` set (allocations xs rs1) = A \<union> fst ` set (allocations (x # xs) (r # rs1))"
    by blast
  from Cons.IH [OF rn B(1,2)] B(3) rs show ?case by simp
qed

text \<open>
  C4.  Take any run of registry calls on a new registry and an empty file system,
  with a faithful gob codec, of fewer than \<open>2 ^ 64\<close> calls (the counter has not
  wrapped).  For every \<open>AddChunk(p, i)\<close> of the run that returned a handle and has no
  \<open>Load\<close> after it, \<open>GetPathIndexFromHandle\<close> on that handle returns \<open>(p, i)\<close> in the
  state after the run.  For every handle that no \<open>AddChunk\<close> of the run returned it
  fails with "chunk handle not found".
\<close>

theorem GetPathIndexFromHandle_inverse:
  assumes "gob_faithful env"
    and "run env ops (NewChunkManager servers, Map.empty) = Inr (rs, m, fs)"
    and "length ops < 2 ^ 64"
  shows "(\<forall>ops1 p i perm ops2 info.
            ops = ops1 @ AddChunk_op p i perm # ops2 \<longrightarrow>
            rs ! length ops1 = Info_reply (Inr info) \<longrightarrow>
            \<not> list_ex is_Load ops2 \<longrightarrow>
            GetPathIndexFromHandle m (Handle info) = Inr \<lparr>Path = p, Index = i\<rparr>)
       \<and> (\<forall>h. h \<notin> fst ` set (allocations ops rs) \<longrightarrow>
            GetPathIndexFromHandle m h = Inl ChunkHandleNotFound)"
proof (intro conjI allI impI)
  fix ops1 p i perm ops2 info
  assume ops: "ops = ops1 @ AddChunk_op p i perm # ops2"
    and reply: "rs ! length ops1 = Info_reply (Inr info)"
    and nl: "\<not> list_ex is_Load ops2"
  let ?s0 = "(NewChunkManager servers, Map.empty :: string \<rightharpoonup> 'a)"
  from assms(2) ops obtain rs1 m1 fs1 rs2 where
    r1: "run env ops1 ?s0 = Inr (rs1, m1, fs1)"
    and r2: "run env (AddChunk_op p i perm # ops2) (m1, fs1) = Inr (rs2, m, fs)"
    and rs: "rs = rs1 @ rs2"
    by (auto simp: run_append split: sum.splits prod.splits)
  from r2 obtain r m2 fs2 rs3 where
    st: "step env (AddChunk_op p i perm) (m1, fs1) = Inr (r, m2, fs2)"
    and r3: "run env ops2 (m2, fs2) = Inr (rs3, m, fs)"
    and rs2: "rs2 = r # rs3"
    by (auto split: sum.splits prod.splits)
  from run_length [OF r1] rs rs2 reply have "r = Info_reply (Inr info)"
    by (simp add: nth_append)
  with st have ad: "addChunk m1 p i perm = Inr (Inr info, m2)"
    by (auto simp: AddChunk_def split: sum.splits prod.splits)
  note a = addChunk_success [OF ad]
  let ?k = "chunkHandle m1"
  have hk: "Handle info = ?k" by (subst a(1)) simp
  have k2: "chunkHandle m2 = ?k + 1" by (subst a(3)) simp
  have h2: "handles m2 ?k = Some \<lparr>Path = p, Index = i\<rparr>" by (subst a(3)) simp
  from assms(3) ops have l1: "0 + length ops1 < 2 ^ 64" by simp
  from run_counter_above [OF assms(1) r1 NewChunkManager_counter_above snapshots_ok_empty l1]
  have un: "unat ?k \<le> length ops1" by (simp add: counter_above_def)
  from assms(3) ops have b: "Suc (length ops1) < 2 ^ 64" by simp
  note s = counter_succ [OF un b]
  have lt: "?k < chunkHandle m2" using s(2) k2 by simp
  have bound: "unat (chunkHandle m2) + length ops2 < 2 ^ 64"
    using assms(3) ops un s(1) k2 by simp
  from run_handle_kept [OF r3 nl h2 lt bound]
  have "handles m ?k = Some \<lparr>Path = p, Index = i\<rparr>" by simp
  with hk show "GetPathIndexFromHandle m (Handle info) = Inr \<lparr>Path = p, Index = i\<rparr>"
    by (simp add: GetPathIndexFromHandle_def)
next
  fix h
  assume h: "h \<notin> fst ` set (allocations ops rs)"
  have "dom (handles (NewChunkManager servers)) \<subseteq> {}"
    by (simp add: NewChunkManager_def)
  from run_handles_within [OF assms(1,2) this snapshots_ok_empty] h
  have "handles m h = None" by auto
  then show "GetPathIndexFromHandle m h = Inl ChunkHandleNotFound"
    by (simp add: GetPathIndexFromHandle_def)
qed


theorem GetPathIndexFromHandle_inverse_witness:
  "gob_faithful \<lparr>gob_Encode = Some, gob_Decode = Some, writable = UNIV\<rparr>
   \<and> length [AddChunk_op ''/f'' 0 [0, 1, 2], SetChunkLocation_op 0 ''D'',
              AddChunk_op ''/g'' 3 [2, 0, 1]] < 2 ^ 64
   \<and> [AddChunk_op ''/f'' 0 [0, 1, 2], SetChunkLocation_op 0 ''D'', AddChunk_op ''/g'' 3 [2, 0, 1]]
       = [] @ AddChunk_op ''/f'' 0 [0, 1, 2]
            # [SetChunkLocation_op 0 ''D'', AddChunk_op ''/g'' 3 [2, 0, 1]]
   \<and> \<not> list_ex is_Load [SetChunkLocation_op 0 ''D'', AddChunk_op ''/g'' 3 [2, 0, 1]]
   \<and> (\<exists>rs m fs.
        run \<lparr>gob_Encode = Some, gob_Decode = Some, writable = UNIV\<rparr>
          [AddChunk_op ''/f'' 0 [0, 1, 2], SetChunkLocation_op 0 ''D'',
           AddChunk_op ''/g'' 3 [2, 0, 1]]
          (NewChunkManager [''A'', ''B'', ''C''], Map.empty) = Inr (rs, m, fs)
        \<and> rs ! length ([] :: op list)
            = Info_reply (Inr \<lparr>Handle = 0, Locations = [''A'', ''B'', ''C'']\<rparr>)
        \<and> GetPathIndexFromHandle m (Handle \<lparr>Handle = 0, Locations = [''A'', ''B'', ''C'']\<rparr>)
            = Inr \<lparr>Path = ''/f'', Index = 0\<rparr>
        \<and> 5 \<notin> fst ` set (allocations
              [AddChunk_op ''/f'' 0 [0, 1, 2], SetChunkLocation_op 0 ''D'',
               AddChunk_op ''/g'' 3 [2, 0, 1]] rs)
        \<and> GetPathIndexFromHandle m 5 = Inl ChunkHandleNotFound)"
proof -
  let ?env = "\<lparr>gob_Encode = Some, gob_Decode = Some, writable = UNIV\<rparr>
                :: persistentData disk_env"
  let ?ops2 = "[SetChunkLocation_op 0 ''D'', AddChunk_op ''/g'' 3 [2, 0, 1]]"
  let ?ops = "[AddChunk_op ''/f'' 0 [0, 1, 2], SetChunkLocation_op 0 ''D'',
               AddChunk_op ''/g'' 3 [2, 0, 1]]"
  let ?info = "\<lparr>Handle = 0, Locations = [''A'', ''B'', ''C'']\<rparr>"
  let ?rs = "[Info_reply (Inr ?info), Error_reply None,
              Info_reply (Inr \<lparr>Handle = 1, Locations = [''C'', ''A'', ''B'']\<rparr>)]"
  let ?m = "\<lparr>chunkHandle = 2,
             chunks = [''/f'' \<mapsto> [0 \<mapsto> \<lparr>ChunkHandle = 0\<rparr>], ''/g'' \<mapsto> [3 \<mapsto> \<lparr>ChunkHandle = 1\<rparr>]],
             handles = [0 \<mapsto> \<lparr>Path = ''/f'', Index = 0\<rparr>, 1 \<mapsto> \<lparr>Path = ''/g'', Index = 3\<rparr>],
             locations = [0 \<mapsto> \<lparr>Handle = 0, Locations = [''A'', ''B'', ''C'', ''D'']\<rparr>,
                          1 \<mapsto> \<lparr>Handle = 1, Locations = [''C'', ''A'', ''B'']\<rparr>],
             chunkServers = [''A'', ''B'', ''C'']\<rparr>"
  have f: "gob_faithful ?env" by (simp add: gob_faithful_def)
  have l: "length ?ops < 2 ^ 64" by simp
  have e: "?ops = [] @ AddChunk_op ''/f'' 0 [0, 1, 2] # ?ops2" by simp
  have n: "\<not> list_ex is_Load ?ops2" by simp
  have r: "run ?env ?ops (NewChunkManager [''A'', ''B'', ''C''], Map.empty)
             = Inr (?rs, ?m, Map.empty)"
    by (simp add: AddChunk_def addChunk_def NewChunkManager_def random_strs_def
        random_loop.simps numeral_3_eq_3 Let_def SetChunkLocation_def insert_str_def)
  note t = GetPathIndexFromHandle_inverse [OF f r l]
  have q: "?rs ! length ([] :: op list) = Info_reply (Inr ?info)" by simp
  from t e q n have a: "GetPathIndexFromHandle ?m (Handle ?info) = Inr \<lparr>Path = ''/f'', Index = 0\<rparr>"
    by blast
  have u: "5 \<notin> fst ` set (allocations ?ops ?rs)" by simp
  from t u have b: "GetPathIndexFromHandle ?m 5 = Inl ChunkHandleNotFound" by blast
  have "\<exists>rs m fs. run ?env ?ops (NewChunkManager [''A'', ''B'', ''C''], Map.empty) = Inr (rs, m, fs)
        \<and> rs ! length ([] :: op list) = Info_reply (Inr ?info)
        \<and> GetPathIndexFromHandle m (Handle ?info) = Inr \<lparr>Path = ''/f'', Index = 0\<rparr>
        \<and> 5 \<notin> fst ` set (allocations ?ops rs)
        \<and> GetPathIndexFromHandle m 5 = Inl ChunkHandleNotFound"
    by (rule exI [of _ ?rs], rule exI [of _ ?m], rule exI [of _ Map.empty])
      (intro conjI r q a u b)
  with f l e n show ?thesis by (intro conjI)
qed

end
